theory Spec2Isabelle
  imports Main "HOL-Library.Word"
begin

text \<open>
  A model of the chat client that answers questions about documentation URLs and
  uploaded files: the file processor (\<open>services/fileProcessor\<close>), the request
  builders of the Gemini service (\<open>services/geminiService\<close>) and the state and
  handlers of the \<open>App\<close> component. A handler is a function from state to state;
  where the source awaits a promise, the handler is split into the part before the
  \<open>await\<close> and the part that runs once the promise has settled. The clock, the
  readers of files, the answer of the backend and the answer to a confirmation dialog
  are arguments. The definitions come first, then the properties proved of them.
\<close>

section \<open>JavaScript strings\<close>

text \<open>
  A JavaScript string is a sequence of UTF-16 code units, and \<open>length\<close>,
  \<open>substring\<close>, \<open>split\<close> and \<open>trim\<close> all work on code units. A string is
  therefore a list of 16-bit words; \<open>js\<close> embeds an ASCII literal.
\<close>

type_synonym code_unit = "16 word"
type_synonym jsstring = "code_unit list"

definition js :: "string \<Rightarrow> jsstring" where
  "js s = map of_char s"

text \<open>
  \<open>String.prototype.trim\<close> and the regular-expression class \<open>\s\<close> use the same
  set: the WhiteSpace and LineTerminator code points of ECMAScript.
\<close>

definition isWhiteSpace :: "code_unit \<Rightarrow> bool" where
  "isWhiteSpace c \<longleftrightarrow>
     c \<in> {0x09, 0x0A, 0x0B, 0x0C, 0x0D, 0x20, 0xA0, 0x1680, 0x2028, 0x2029, 0x202F,
          0x205F, 0x3000, 0xFEFF}
     \<or> (0x2000 \<le> c \<and> c \<le> 0x200A)"

definition trim :: "jsstring \<Rightarrow> jsstring" where
  "trim s = rev (dropWhile isWhiteSpace (rev (dropWhile isWhiteSpace s)))"

text \<open>
  \<open>toLowerCase\<close> is used on file extensions only, whose result is compared with ASCII
  literals. The model lowers \<open>A\<close>..\<open>Z\<close> and keeps every other code unit. The only
  code point outside ASCII whose lower case lies inside ASCII is the Kelvin sign
  (U+212A, to \<open>k\<close>), and no extension the source compares with contains a \<open>k\<close>, so
  every such comparison has the result it has in JavaScript.
\<close>

definition toLowerCase :: "jsstring \<Rightarrow> jsstring" where
  "toLowerCase s = map (\<lambda>c. if 0x41 \<le> c \<and> c \<le> 0x5A then c + 0x20 else c) s"

text \<open>\<open>s.split(sep)\<close> for a separator of one code unit; the result is never empty.\<close>

fun split :: "code_unit \<Rightarrow> jsstring \<Rightarrow> jsstring list" where
  "split sep [] = [[]]"
| "split sep (c # cs) =
     (if c = sep then [] # split sep cs
      else (case split sep cs of [] \<Rightarrow> [[c]] | x # xs \<Rightarrow> (c # x) # xs))"

text \<open>\<open>xs.join(sep)\<close>.\<close>

fun join :: "jsstring \<Rightarrow> jsstring list \<Rightarrow> jsstring" where
  "join sep [] = []"
| "join sep [x] = x"
| "join sep (x # y # ys) = x @ sep @ join sep (y # ys)"

text \<open>The decimal numeral of a non-negative integer, as a template literal prints it.\<close>

fun toString :: "nat \<Rightarrow> jsstring" where
  "toString n =
     (if n < 10 then [0x30 + of_nat n]
      else toString (n div 10) @ [0x30 + of_nat (n mod 10)])"

declare toString.simps [simp del]

section \<open>types.ts\<close>

datatype MessageSender = USER | MODEL | SYSTEM

record UrlContextMetadataItem =
  retrievedUrl :: jsstring
  urlRetrievalStatus :: jsstring

text \<open>
  The optional fields are options. \<open>timestamp\<close> is the clock reading in milliseconds.
  Field names carry a prefix where the source's name is taken in HOL (\<open>id\<close>, \<open>text\<close>)
  or is shared by several interfaces (\<open>name\<close>, \<open>urls\<close>, \<open>content\<close>).
\<close>

record ChatMessage =
  msg_id :: jsstring
  msg_text :: jsstring
  sender :: MessageSender
  timestamp :: nat
  isLoading_msg :: "bool option"
  urlContext :: "UrlContextMetadataItem list option"

record URLGroup =
  group_id :: jsstring
  group_name :: jsstring
  group_urls :: "jsstring list"

datatype LocalContextType = CtxFile | CtxFolder

record LocalContext =
  ctx_type :: LocalContextType
  ctx_name :: jsstring
  ctx_content :: jsstring
  ctx_count :: nat

section \<open>services/fileProcessor\<close>

definition MAX_CONTEXT_CHARS :: nat where
  "MAX_CONTEXT_CHARS = 1000000"

text \<open>
  A browser \<open>File\<close>: its name, its path inside the picked folder and its bytes;
  \<open>file.size\<close> is the number of bytes.
\<close>

record File =
  file_name :: jsstring
  webkitRelativePath :: jsstring
  bytes :: "8 word list"

definition file_size :: "File \<Rightarrow> nat" where
  "file_size f = length (bytes f)"

text \<open>
  The three readers wrap the platform and two libraries (\<open>FileReader\<close>, mammoth,
  pdf.js). Each resolves to the extracted text or rejects (\<open>None\<close>); they are
  parameters of the model.
\<close>

record readers =
  readDocxFile :: "File \<Rightarrow> jsstring option"
  readPdfFile :: "File \<Rightarrow> jsstring option"
  readTextFile :: "File \<Rightarrow> jsstring option"

definition ALLOWED_EXTENSIONS :: "jsstring list" where
  "ALLOWED_EXTENSIONS =
     [js ''.js'', js ''.jsx'', js ''.ts'', js ''.tsx'', js ''.py'', js ''.html'',
      js ''.css'', js ''.scss'', js ''.md'', js ''.json'', js ''.txt'', js ''.csv'',
      js ''.yaml'', js ''.yml'', js ''.docx'', js ''.pdf'']"

text \<open>
  The expression \<open>`.${file.name.split('.').pop()?.toLowerCase()}`\<close>, which both
  upload paths compute. \<open>pop\<close> of an empty array would be \<open>undefined\<close>.
\<close>

definition extension :: "jsstring \<Rightarrow> jsstring" where
  "extension name =
     (case rev (split 0x2E name) of
        [] \<Rightarrow> js ''.undefined''
      | x # _ \<Rightarrow> js ''.'' @ toLowerCase x)"

record fileResult =
  res_name :: jsstring
  res_content :: jsstring

definition validFiles :: "File list \<Rightarrow> File list" where
  "validFiles files =
     filter (\<lambda>f. extension (file_name f) \<in> set ALLOWED_EXTENSIONS \<and> file_size f > 0) files"

text \<open>
  One promise per valid file, in the order of \<open>validFiles\<close>; a rejected one becomes
  \<open>null\<close>. \<open>Promise.all\<close> keeps the order and \<open>filter(Boolean)\<close> drops the nulls.
\<close>

definition filePromise :: "readers \<Rightarrow> File \<Rightarrow> fileResult option" where
  "filePromise rd f =
     (let ext = extension (file_name f);
          content = (if ext = js ''.docx'' then readDocxFile rd f
                     else if ext = js ''.pdf'' then readPdfFile rd f
                     else readTextFile rd f)
      in map_option (\<lambda>c. \<lparr>res_name = webkitRelativePath f, res_content = c\<rparr>) content)"

definition allResults :: "readers \<Rightarrow> File list \<Rightarrow> fileResult list" where
  "allResults rd files = List.map_filter (filePromise rd) (validFiles files)"

text \<open>
  The loop over \<open>allResults\<close>, with its two variables as arguments; \<open>break\<close> returns
  what has been collected.
\<close>

fun processFolder_loop :: "nat \<Rightarrow> fileResult list \<Rightarrow> fileResult list \<Rightarrow> fileResult list" where
  "processFolder_loop totalChars finalProcessedFiles [] = finalProcessedFiles"
| "processFolder_loop totalChars finalProcessedFiles (fileResult # rest) =
     (if res_content fileResult \<noteq> [] \<and> trim (res_content fileResult) \<noteq> [] then
        if totalChars + length (res_content fileResult) > MAX_CONTEXT_CHARS
        then finalProcessedFiles
        else processFolder_loop (totalChars + length (res_content fileResult))
               (finalProcessedFiles @ [fileResult]) rest
      else processFolder_loop totalChars finalProcessedFiles rest)"

definition finalProcessedFiles :: "readers \<Rightarrow> File list \<Rightarrow> fileResult list" where
  "finalProcessedFiles rd files = processFolder_loop 0 [] (allResults rd files)"

definition fileHeader :: "fileResult \<Rightarrow> jsstring" where
  "fileHeader r = js ''--- File: '' @ res_name r @ js '' ---'' @ [0x0A] @ res_content r"

record folderResult =
  fullContent :: jsstring
  processedCount :: nat
  totalValidFileCount :: nat

definition processFolder :: "readers \<Rightarrow> File list \<Rightarrow> folderResult" where
  "processFolder rd files =
     \<lparr>fullContent = join [0x0A, 0x0A] (map fileHeader (finalProcessedFiles rd files)),
      processedCount = length (finalProcessedFiles rd files),
      totalValidFileCount = length (validFiles files)\<rparr>"

section \<open>services/geminiService\<close>

text \<open>
  \<open>process.env.API_KEY\<close> is \<open>undefined\<close> (\<open>None\<close>) or a string; the source tests
  it for truthiness, which the empty string fails too.
\<close>

definition truthy :: "jsstring option \<Rightarrow> bool" where
  "truthy v = (case v of None \<Rightarrow> False | Some s \<Rightarrow> s \<noteq> [])"

definition MODEL_NAME :: jsstring where
  "MODEL_NAME = js ''gemini-2.5-flash''"

datatype HarmCategory =
    HARM_CATEGORY_HARASSMENT
  | HARM_CATEGORY_HATE_SPEECH
  | HARM_CATEGORY_SEXUALLY_EXPLICIT
  | HARM_CATEGORY_DANGEROUS_CONTENT

datatype HarmBlockThreshold = BLOCK_MEDIUM_AND_ABOVE

record SafetySetting =
  category :: HarmCategory
  threshold :: HarmBlockThreshold

definition safetySettings :: "SafetySetting list" where
  "safetySettings =
     [\<lparr>category = HARM_CATEGORY_HARASSMENT, threshold = BLOCK_MEDIUM_AND_ABOVE\<rparr>,
      \<lparr>category = HARM_CATEGORY_HATE_SPEECH, threshold = BLOCK_MEDIUM_AND_ABOVE\<rparr>,
      \<lparr>category = HARM_CATEGORY_SEXUALLY_EXPLICIT, threshold = BLOCK_MEDIUM_AND_ABOVE\<rparr>,
      \<lparr>category = HARM_CATEGORY_DANGEROUS_CONTENT, threshold = BLOCK_MEDIUM_AND_ABOVE\<rparr>]"

text \<open>
  The argument of \<open>ai.models.generateContent\<close>. The only tool the source builds is
  \<open>{ urlContext: { urls } }\<close>; a key of \<open>config\<close> the source leaves out is
  \<open>None\<close>. A \<open>Content\<close> is a role and the texts of its parts.
\<close>

datatype Tool = urlContext "jsstring list"

record Content =
  role :: jsstring
  parts :: "jsstring list"

record GenerateContentConfig =
  tools :: "Tool list option"
  config_safetySettings :: "SafetySetting list"
  responseMimeType :: "jsstring option"

record GenerateContentParameters =
  model :: jsstring
  contents :: "Content list"
  config :: GenerateContentConfig

record GeminiResponse =
  response_text :: "jsstring option"
  urlContextMetadata :: "UrlContextMetadataItem list option"

text \<open>
  What a service function does before it awaits the backend: it returns without a
  call, throws without a call, or issues one call with the given argument. What the
  call settles to is the backend's answer; the handlers of \<open>App\<close> take the settled
  outcome of the service function as an argument (\<open>Inl\<close> the message of the error
  thrown, \<open>Inr\<close> the response returned).
\<close>

datatype service_step =
    Returns GeminiResponse
  | Throws jsstring
  | Calls GenerateContentParameters

definition txt_no_key_error :: jsstring where
  "txt_no_key_error =
     js ''Gemini API '' @ [0x91D1, 0x9470, 0x672A, 0x8A2D, 0x5B9A, 0x3002, 0x8ACB, 0x8A2D,
       0x5B9A] @ js '' process.env.API_KEY'' @ [0x3002]"

definition txt_answer_in_chinese :: jsstring where
  "txt_answer_in_chinese =
     [0x000A, 0x000A, 0x8ACB, 0x7528, 0x7E41, 0x9AD4, 0x4E2D, 0x6587, 0x56DE, 0x7B54,
       0x3002]"

definition txt_file_block_pre :: jsstring where
  "txt_file_block_pre =
     [0x000A, 0x000A, 0x4E5F, 0x8ACB, 0x53C3, 0x8003, 0x4EE5, 0x4E0B, 0x4E0A, 0x50B3,
       0x7684, 0x6A94, 0x6848, 0x5167, 0x5BB9, 0xFF1A, 0x000A] @ js ''---'' @ [0x000A]"

definition txt_file_block_post :: jsstring where
  "txt_file_block_post =
     [0x000A] @ js ''---''"

definition txt_no_urls_suggestion :: jsstring where
  "txt_no_urls_suggestion =
     [0x007B, 0x0022] @ js ''suggestions'' @ [0x0022] @ js '':'' @ [0x005B, 0x0022, 0x65B0,
       0x589E, 0x4E00, 0x4E9B] @ js '' URL '' @ [0x4EE5, 0x53D6, 0x5F97, 0x4E3B, 0x984C,
       0x5EFA, 0x8B70, 0x3002, 0x0022, 0x005D, 0x007D]"

definition txt_suggestion_prompt :: jsstring where
  "txt_suggestion_prompt =
     [0x6839, 0x64DA, 0x4EE5, 0x4E0B, 0x6587, 0x4EF6] @ js '' URL '' @ [0x7684, 0x5167,
       0x5BB9, 0xFF0C, 0x63D0, 0x4F9B] @ js '' 3-4 '' @ [0x500B, 0x958B, 0x767C, 0x4EBA,
       0x54E1, 0x53EF, 0x80FD, 0x6703, 0x554F, 0x7684, 0x7C21, 0x6F54, 0x4E14, 0x53EF,
       0x64CD, 0x4F5C, 0x7684, 0x554F, 0x984C, 0xFF0C, 0x4EE5, 0x63A2, 0x7D22, 0x9019,
       0x4E9B, 0x6587, 0x4EF6, 0x3002, 0x9019, 0x4E9B, 0x554F, 0x984C, 0x61C9, 0x9069,
       0x5408, 0x4F5C, 0x70BA, 0x5FEB, 0x901F, 0x5165, 0x9580, 0x7684, 0x63D0, 0x793A,
       0x3002, 0x8ACB, 0x50C5, 0x56DE, 0x50B3, 0x4E00, 0x500B] @ js '' JSON '' @ [0x7269,
       0x4EF6, 0xFF0C, 0x5176, 0x4E2D, 0x5305, 0x542B, 0x4E00, 0x500B, 0x540D, 0x70BA] @
       js '' '' @ [0x0022] @ js ''suggestions'' @ [0x0022] @ js '' '' @ [0x7684, 0x9375,
       0xFF0C, 0x5176, 0x503C, 0x70BA, 0x9019, 0x4E9B, 0x554F, 0x984C, 0x5B57, 0x4E32,
       0x7684, 0x9663, 0x5217, 0x3002, 0x4F8B, 0x5982, 0xFF1A, 0x007B, 0x0022] @
       js ''suggestions'' @ [0x0022] @ js '': '' @ [0x005B, 0x0022, 0x901F, 0x7387, 0x9650,
       0x5236, 0x662F, 0x591A, 0x5C11, 0xFF1F, 0x0022, 0x002C] @ js '' '' @ [0x0022, 0x5982,
       0x4F55, 0x53D6, 0x5F97] @ js '' API '' @ [0x91D1, 0x9470, 0xFF1F, 0x0022, 0x002C] @
       js '' '' @ [0x0022, 0x89E3, 0x91CB, 0x4E00, 0x4E0B, 0x6A21, 0x578B] @ js '' X'' @
       [0x3002, 0x0022, 0x005D, 0x007D, 0x000A, 0x000A] @ js ''Relevant URLs:'' @ [0x000A]"

definition generateContentWithUrlContext ::
  "jsstring option \<Rightarrow> jsstring \<Rightarrow> jsstring list \<Rightarrow> jsstring option \<Rightarrow> service_step" where
  "generateContentWithUrlContext API_KEY prompt urls fileContent =
     (if \<not> truthy API_KEY then Throws txt_no_key_error
      else
        let tools = (if length urls > 0 then [urlContext urls] else []);
            fullPrompt = prompt @ txt_answer_in_chinese;
            fullPrompt = (case fileContent of
                            None \<Rightarrow> fullPrompt
                          | Some c \<Rightarrow>
                              if c \<noteq> []
                              then fullPrompt @ txt_file_block_pre @ c @ txt_file_block_post
                              else fullPrompt)
        in Calls \<lparr>model = MODEL_NAME,
                  contents = [\<lparr>role = js ''user'', parts = [fullPrompt]\<rparr>],
                  config = \<lparr>tools = Some tools,
                            config_safetySettings = safetySettings,
                            responseMimeType = None\<rparr>\<rparr>)"

definition getInitialSuggestions :: "jsstring option \<Rightarrow> jsstring list \<Rightarrow> service_step" where
  "getInitialSuggestions API_KEY urls =
     (if length urls = 0
      then Returns \<lparr>response_text = Some txt_no_urls_suggestion, urlContextMetadata = None\<rparr>
      else if \<not> truthy API_KEY then Throws txt_no_key_error
      else
        let urlList = join [0x0A] urls;
            promptText = txt_suggestion_prompt @ urlList
        in Calls \<lparr>model = MODEL_NAME,
                  contents = [\<lparr>role = js ''user'', parts = [promptText]\<rparr>],
                  config = \<lparr>tools = None,
                            config_safetySettings = safetySettings,
                            responseMimeType = Some (js ''application/json'')\<rparr>\<rparr>)"

section \<open>The platform: regular expressions and JSON\<close>

subsection \<open>The fragment of regular expressions the source uses\<close>

text \<open>
  A pattern is a sequence of items, each a class of code units under a quantifier,
  anchored at both ends. The matcher backtracks in the order ECMAScript fixes: a
  greedy quantifier tries the longer match first, a lazy one the shorter. An item
  marked as captured appends what it consumes to the capture.
\<close>

datatype quantifier = Once | OptGreedy | StarGreedy | StarLazy

record item =
  cls :: "code_unit \<Rightarrow> bool"
  quant :: quantifier
  captured :: bool

fun rmatch :: "item list \<Rightarrow> jsstring \<Rightarrow> jsstring \<Rightarrow> jsstring option" where
  "rmatch [] s g = (if s = [] then Some g else None)"
| "rmatch (i # items) [] g = (if quant i = Once then None else rmatch items [] g)"
| "rmatch (i # items) (c # cs) g =
     (let g' = (if captured i then g @ [c] else g) in
      case quant i of
        Once \<Rightarrow> if cls i c then rmatch items cs g' else None
      | OptGreedy \<Rightarrow>
          (if cls i c then
             (case rmatch items cs g' of
                Some r \<Rightarrow> Some r
              | None \<Rightarrow> rmatch items (c # cs) g)
           else rmatch items (c # cs) g)
      | StarGreedy \<Rightarrow>
          (if cls i c then
             (case rmatch (i # items) cs g' of
                Some r \<Rightarrow> Some r
              | None \<Rightarrow> rmatch items (c # cs) g)
           else rmatch items (c # cs) g)
      | StarLazy \<Rightarrow>
          (case rmatch items (c # cs) g of
             Some r \<Rightarrow> Some r
           | None \<Rightarrow> if cls i c then rmatch (i # items) cs g' else None))"

text \<open>The items \<open>c\<close>, \<open>c*\<close> and \<open>c?\<close> for a class \<open>c\<close>, outside a capturing group.\<close>

definition once :: "(code_unit \<Rightarrow> bool) \<Rightarrow> item" where
  "once P = \<lparr>cls = P, quant = Once, captured = False\<rparr>"

definition star :: "(code_unit \<Rightarrow> bool) \<Rightarrow> item" where
  "star P = \<lparr>cls = P, quant = StarGreedy, captured = False\<rparr>"

definition opt :: "(code_unit \<Rightarrow> bool) \<Rightarrow> item" where
  "opt P = \<lparr>cls = P, quant = OptGreedy, captured = False\<rparr>"

definition isWordChar :: "code_unit \<Rightarrow> bool" where
  "isWordChar c \<longleftrightarrow>
     (0x30 \<le> c \<and> c \<le> 0x39) \<or> (0x41 \<le> c \<and> c \<le> 0x5A) \<or> c = 0x5F \<or> (0x61 \<le> c \<and> c \<le> 0x7A)"

subsection \<open>JSON.parse\<close>

text \<open>
  The values \<open>JSON.parse\<close> returns. A number keeps its lexeme: the source never
  computes with one.
\<close>

datatype json =
    JNull
  | JBool bool
  | JNumber jsstring
  | JString jsstring
  | JArray "json list"
  | JObject "(jsstring \<times> json) list"

definition isJsonWs :: "code_unit \<Rightarrow> bool" where
  "isJsonWs c \<longleftrightarrow> c = 0x20 \<or> c = 0x09 \<or> c = 0x0A \<or> c = 0x0D"

definition skipWs :: "jsstring \<Rightarrow> jsstring" where
  "skipWs s = dropWhile isJsonWs s"

definition isDigit :: "code_unit \<Rightarrow> bool" where
  "isDigit c \<longleftrightarrow> 0x30 \<le> c \<and> c \<le> 0x39"

definition hexValue :: "code_unit \<Rightarrow> code_unit option" where
  "hexValue c =
     (if 0x30 \<le> c \<and> c \<le> 0x39 then Some (c - 0x30)
      else if 0x41 \<le> c \<and> c \<le> 0x46 then Some (c - 0x37)
      else if 0x61 \<le> c \<and> c \<le> 0x66 then Some (c - 0x57)
      else None)"

definition unescape :: "code_unit \<Rightarrow> code_unit option" where
  "unescape c =
     (if c = 0x22 \<or> c = 0x5C \<or> c = 0x2F then Some c
      else if c = 0x62 then Some 0x08
      else if c = 0x66 then Some 0x0C
      else if c = 0x6E then Some 0x0A
      else if c = 0x72 then Some 0x0D
      else if c = 0x74 then Some 0x09
      else None)"

text \<open>
  What a reader of a part of the text returns: the value read and the rest of the
  text, a syntax error, or that its bound on the depth of recursion was reached.
\<close>

datatype 'a parsed = Parsed 'a jsstring | SyntaxError | OutOfFuel

definition lexeme :: "('a \<times> jsstring) option \<Rightarrow> 'a parsed" where
  "lexeme r = (case r of None \<Rightarrow> SyntaxError | Some (x, rest) \<Rightarrow> Parsed x rest)"

definition consTo :: "'a \<Rightarrow> ('a list \<times> 'b) option \<Rightarrow> ('a list \<times> 'b) option" where
  "consTo x r = map_option (\<lambda>(xs, rest). (x # xs, rest)) r"

text \<open>
  The characters of a string literal after its opening quote, up to the closing one:
  the string denoted and the rest of the text.
\<close>

fun parseChars :: "jsstring \<Rightarrow> (jsstring \<times> jsstring) option" where
  "parseChars [] = None"
| "parseChars (c # cs) =
     (if c = 0x22 then Some ([], cs)
      else if c = 0x5C then
        (case cs of
           [] \<Rightarrow> None
         | e # r \<Rightarrow>
             if e = 0x75 then
               (case r of
                  h1 # h2 # h3 # h4 # r' \<Rightarrow>
                    (case (hexValue h1, hexValue h2, hexValue h3, hexValue h4) of
                       (Some a, Some b, Some c', Some d) \<Rightarrow>
                         consTo (a * 0x1000 + b * 0x100 + c' * 0x10 + d) (parseChars r')
                     | _ \<Rightarrow> None)
                | _ \<Rightarrow> None)
             else
               (case unescape e of
                  Some u \<Rightarrow> consTo u (parseChars r)
                | None \<Rightarrow> None))
      else if c < 0x20 then None
      else consTo c (parseChars cs))"

text \<open>The lexeme of a number: \<open>-? (0 | [1-9][0-9]*) (. [0-9]+)? ([eE] [+-]? [0-9]+)?\<close>.\<close>

definition parseInt :: "jsstring \<Rightarrow> (jsstring \<times> jsstring) option" where
  "parseInt s =
     (case s of
        [] \<Rightarrow> None
      | c # cs \<Rightarrow>
          if c = 0x30 then Some ([c], cs)
          else if isDigit c then Some (takeWhile isDigit s, dropWhile isDigit s)
          else None)"

definition parseFrac :: "jsstring \<Rightarrow> (jsstring \<times> jsstring) option" where
  "parseFrac s =
     (case s of
        [] \<Rightarrow> Some ([], s)
      | c # cs \<Rightarrow>
          if c = 0x2E then
            (if takeWhile isDigit cs = [] then None
             else Some (c # takeWhile isDigit cs, dropWhile isDigit cs))
          else Some ([], s))"

definition parseExp :: "jsstring \<Rightarrow> (jsstring \<times> jsstring) option" where
  "parseExp s =
     (case s of
        [] \<Rightarrow> Some ([], s)
      | c # cs \<Rightarrow>
          if c = 0x65 \<or> c = 0x45 then
            (let sign = (case cs of [] \<Rightarrow> [] | d # _ \<Rightarrow> if d = 0x2B \<or> d = 0x2D then [d] else []);
                 ds = drop (length sign) cs
             in if takeWhile isDigit ds = [] then None
                else Some (c # sign @ takeWhile isDigit ds, dropWhile isDigit ds))
          else Some ([], s))"

definition parseNumber :: "jsstring \<Rightarrow> (jsstring \<times> jsstring) option" where
  "parseNumber s =
     (let minus = (case s of [] \<Rightarrow> [] | c # _ \<Rightarrow> if c = 0x2D then [c] else [])
      in case parseInt (drop (length minus) s) of
           None \<Rightarrow> None
         | Some (i, r1) \<Rightarrow>
             (case parseFrac r1 of
                None \<Rightarrow> None
              | Some (f, r2) \<Rightarrow>
                  (case parseExp r2 of
                     None \<Rightarrow> None
                   | Some (e, r3) \<Rightarrow> Some (minus @ i @ f @ e, r3))))"

definition literal :: "jsstring \<Rightarrow> 'a \<Rightarrow> jsstring \<Rightarrow> ('a \<times> jsstring) option" where
  "literal w v s = (if take (length w) s = w then Some (v, drop (length w) s) else None)"

text \<open>
  A recursive-descent reader of the JSON grammar. The first argument bounds the depth
  of the recursion; \<open>JSON_parse\<close> passes a bound that is never reached (lemma
  \<open>JSON_parse_fuel\<close> below).
\<close>

fun parseValue :: "nat \<Rightarrow> jsstring \<Rightarrow> json parsed"
  and parseElements :: "nat \<Rightarrow> jsstring \<Rightarrow> json list parsed"
  and parseMembers :: "nat \<Rightarrow> jsstring \<Rightarrow> (jsstring \<times> json) list parsed"
where
  "parseValue 0 s = OutOfFuel"
| "parseValue (Suc n) [] = SyntaxError"
| "parseValue (Suc n) (c # cs) =
     (if c = 0x7B then
        (case skipWs cs of
           [] \<Rightarrow> SyntaxError
         | d # r \<Rightarrow>
             if d = 0x7D then Parsed (JObject []) r
             else map_parsed JObject (parseMembers n (d # r)))
      else if c = 0x5B then
        (case skipWs cs of
           [] \<Rightarrow> SyntaxError
         | d # r \<Rightarrow>
             if d = 0x5D then Parsed (JArray []) r
             else map_parsed JArray (parseElements n (d # r)))
      else if c = 0x22 then lexeme (map_option (apfst JString) (parseChars cs))
      else if c = 0x74 then lexeme (literal (js ''true'') (JBool True) (c # cs))
      else if c = 0x66 then lexeme (literal (js ''false'') (JBool False) (c # cs))
      else if c = 0x6E then lexeme (literal (js ''null'') JNull (c # cs))
      else lexeme (map_option (apfst JNumber) (parseNumber (c # cs))))"
| "parseElements 0 s = OutOfFuel"
| "parseElements (Suc n) s =
     (case parseValue n s of
        SyntaxError \<Rightarrow> SyntaxError
      | OutOfFuel \<Rightarrow> OutOfFuel
      | Parsed v r \<Rightarrow>
          (case skipWs r of
             [] \<Rightarrow> SyntaxError
           | d # r' \<Rightarrow>
               if d = 0x2C then map_parsed (Cons v) (parseElements n (skipWs r'))
               else if d = 0x5D then Parsed [v] r'
               else SyntaxError))"
| "parseMembers 0 s = OutOfFuel"
| "parseMembers (Suc n) [] = SyntaxError"
| "parseMembers (Suc n) (q # cs) =
     (if q \<noteq> 0x22 then SyntaxError
      else
        (case parseChars cs of
           None \<Rightarrow> SyntaxError
         | Some (k, r) \<Rightarrow>
             (case skipWs r of
                [] \<Rightarrow> SyntaxError
              | colon # r1 \<Rightarrow>
                  if colon \<noteq> 0x3A then SyntaxError
                  else
                    (case parseValue n (skipWs r1) of
                       SyntaxError \<Rightarrow> SyntaxError
                     | OutOfFuel \<Rightarrow> OutOfFuel
                     | Parsed v r2 \<Rightarrow>
                         (case skipWs r2 of
                            [] \<Rightarrow> SyntaxError
                          | d # r3 \<Rightarrow>
                              if d = 0x2C
                              then map_parsed (Cons (k, v)) (parseMembers n (skipWs r3))
                              else if d = 0x7D then Parsed [(k, v)] r3
                              else SyntaxError)))))"

text \<open>\<open>JSON.parse(s)\<close>: the value, or \<open>None\<close> where it throws a SyntaxError.\<close>

definition JSON_parse :: "jsstring \<Rightarrow> json option" where
  "JSON_parse s =
     (case parseValue (2 * length s + 2) (skipWs s) of
        Parsed v r \<Rightarrow> if skipWs r = [] then Some v else None
      | SyntaxError \<Rightarrow> None
      | OutOfFuel \<Rightarrow> None)"

text \<open>
  \<open>parsed.suggestions\<close>: the own property of an object, where a later member of the
  same name has replaced an earlier one; \<open>undefined\<close> (\<open>None\<close>) on an array and on
  a primitive.
\<close>

definition suggestionsProperty :: "json \<Rightarrow> json option" where
  "suggestionsProperty parsed =
     (case parsed of
        JObject ms \<Rightarrow> map_of (rev ms) (js ''suggestions'')
      | _ \<Rightarrow> None)"

section \<open>App\<close>

definition GEMINI_DOCS_URLS :: "jsstring list" where
  "GEMINI_DOCS_URLS =
     [js ''https://ai.google.dev/gemini-api/docs'',
      js ''https://ai.google.dev/gemini-api/docs/quickstart'',
      js ''https://ai.google.dev/gemini-api/docs/api-key'',
      js ''https://ai.google.dev/gemini-api/docs/libraries'',
      js ''https://ai.google.dev/gemini-api/docs/models'',
      js ''https://ai.google.dev/gemini-api/docs/pricing'',
      js ''https://ai.google.dev/gemini-api/docs/rate-limits'',
      js ''https://ai.google.dev/gemini-api/docs/billing'',
      js ''https://ai.google.dev/gemini-api/docs/changelog'']"

definition MODEL_CAPABILITIES_URLS :: "jsstring list" where
  "MODEL_CAPABILITIES_URLS =
     [js ''https://ai.google.dev/gemini-api/docs/text-generation'',
      js ''https://ai.google.dev/gemini-api/docs/image-generation'',
      js ''https://ai.google.dev/gemini-api/docs/video'',
      js ''https://ai.google.dev/gemini-api/docs/speech-generation'',
      js ''https://ai.google.dev/gemini-api/docs/music-generation'',
      js ''https://ai.google.dev/gemini-api/docs/long-context'',
      js ''https://ai.google.dev/gemini-api/docs/structured-output'',
      js ''https://ai.google.dev/gemini-api/docs/thinking'',
      js ''https://ai.google.dev/gemini-api/docs/function-calling'',
      js ''https://ai.google.dev/gemini-api/docs/document-processing'',
      js ''https://ai.google.dev/gemini-api/docs/image-understanding'',
      js ''https://ai.google.dev/gemini-api/docs/video-understanding'',
      js ''https://ai.google.dev/gemini-api/docs/audio'',
      js ''https://ai.google.dev/gemini-api/docs/code-execution'',
      js ''https://ai.google.dev/gemini-api/docs/grounding'']"

definition txt_group_overview :: jsstring where
  "txt_group_overview =
     js ''Gemini '' @ [0x6587, 0x4EF6, 0x7E3D, 0x89BD]"

definition txt_group_capabilities :: jsstring where
  "txt_group_capabilities =
     [0x6A21, 0x578B, 0x529F, 0x80FD]"

definition txt_welcome_no_key :: jsstring where
  "txt_welcome_no_key =
     [0x932F, 0x8AA4, 0xFF1A] @ js ''Gemini API '' @ [0x91D1, 0x9470] @
       js '' (process.env.API_KEY) '' @ [0x5C1A, 0x672A, 0x8A2D, 0x5B9A, 0x3002, 0x8ACB,
       0x8A2D, 0x5B9A, 0x6B64, 0x74B0, 0x5883, 0x8B8A, 0x6578, 0x4EE5, 0x4F7F, 0x7528,
       0x672C, 0x61C9, 0x7528, 0x7A0B, 0x5F0F, 0x3002]"

definition txt_welcome_pre :: jsstring where
  "txt_welcome_pre =
     [0x6B61, 0x8FCE, 0x4F7F, 0x7528, 0x6587, 0x4EF6, 0x700F, 0x89BD, 0x5668, 0xFF01,
       0x60A8, 0x76EE, 0x524D, 0x6B63, 0x5728, 0x700F, 0x89BD, 0x7684, 0x5167, 0x5BB9,
       0x4F86, 0x81EA, 0xFF1A, 0x300C]"

definition txt_none :: jsstring where
  "txt_none =
     [0x7121]"

definition txt_welcome_post :: jsstring where
  "txt_welcome_post =
     [0x300D, 0x3002, 0x8ACB, 0x76F4, 0x63A5, 0x5411, 0x6211, 0x63D0, 0x554F, 0xFF0C,
       0x6216, 0x5617, 0x8A66, 0x4E0B, 0x65B9, 0x7684, 0x5EFA, 0x8B70, 0x554F, 0x984C,
       0x958B, 0x59CB, 0x3002]"

definition txt_suggestion_format :: jsstring where
  "txt_suggestion_format =
     [0x6536, 0x5230, 0x7684, 0x5EFA, 0x8B70, 0x683C, 0x5F0F, 0x6709, 0x8AA4, 0x3002]"

definition txt_suggestion_parse :: jsstring where
  "txt_suggestion_parse =
     [0x89E3, 0x6790] @ js '' AI '' @ [0x5EFA, 0x8B70, 0x6642, 0x767C, 0x751F, 0x932F,
       0x8AA4, 0x3002]"

definition txt_suggestion_fetch_default :: jsstring where
  "txt_suggestion_fetch_default =
     [0x7121, 0x6CD5, 0x64F7, 0x53D6, 0x521D, 0x59CB, 0x5EFA, 0x8B70, 0x3002]"

definition txt_suggestion_fetch_pre :: jsstring where
  "txt_suggestion_fetch_pre =
     [0x64F7, 0x53D6, 0x5EFA, 0x8B70, 0x6642, 0x767C, 0x751F, 0x932F, 0x8AA4, 0xFF1A] @
       js '' ''"

definition txt_group_name_alert :: jsstring where
  "txt_group_name_alert =
     [0x7FA4, 0x7D44, 0x540D, 0x7A31, 0x4E0D, 0x80FD, 0x70BA, 0x7A7A, 0x6216, 0x8207,
       0x73FE, 0x6709, 0x7FA4, 0x7D44, 0x91CD, 0x8907, 0x3002]"

definition txt_last_group_alert :: jsstring where
  "txt_last_group_alert =
     [0x7121, 0x6CD5, 0x522A, 0x9664, 0x6700, 0x5F8C, 0x4E00, 0x500B, 0x7FA4, 0x7D44,
       0x3002]"

definition txt_file_type_pre :: jsstring where
  "txt_file_type_pre =
     [0x4E0D, 0x652F, 0x63F4, 0x7684, 0x6A94, 0x6848, 0x985E, 0x578B, 0xFF1A, 0x300C]"

definition txt_quote_stop :: jsstring where
  "txt_quote_stop =
     [0x300D, 0x3002]"

definition txt_file_ok_pre :: jsstring where
  "txt_file_ok_pre =
     [0x5DF2, 0x6210, 0x529F, 0x8B80, 0x53D6, 0x6A94, 0x6848, 0xFF1A, 0x300C]"

definition txt_context_post :: jsstring where
  "txt_context_post =
     [0x300D, 0x3002, 0x5176, 0x5167, 0x5BB9, 0x5C07, 0x6703, 0x4F5C, 0x70BA, 0x63D0,
       0x554F, 0x7684, 0x4E0A, 0x4E0B, 0x6587, 0x3002]"

definition txt_file_truncated :: jsstring where
  "txt_file_truncated =
     [0x000A, 0x000A, 0x6CE8, 0x610F, 0xFF1A, 0x6A94, 0x6848, 0x5167, 0x5BB9, 0x56E0,
       0x904E, 0x9577, 0x5DF2, 0x88AB, 0x622A, 0x65B7, 0x3002]"

definition txt_file_read_pre :: jsstring where
  "txt_file_read_pre =
     [0x8B80, 0x53D6, 0x6A94, 0x6848, 0x300C]"

definition txt_file_read_post :: jsstring where
  "txt_file_read_post =
     [0x300D, 0x6642, 0x767C, 0x751F, 0x932F, 0x8AA4, 0x3002]"

definition txt_uploaded_folder :: jsstring where
  "txt_uploaded_folder =
     [0x4E0A, 0x50B3, 0x7684, 0x8CC7, 0x6599, 0x593E]"

definition txt_folder_processing_pre :: jsstring where
  "txt_folder_processing_pre =
     [0x6B63, 0x5728, 0x8655, 0x7406, 0x8CC7, 0x6599, 0x593E, 0x300C]"

definition txt_folder_processing_post :: jsstring where
  "txt_folder_processing_post =
     [0x300D, 0x4E2D, 0x7684, 0x6A94, 0x6848] @ js ''...''"

definition txt_folder_empty_pre :: jsstring where
  "txt_folder_empty_pre =
     [0x5728, 0x300C]"

definition txt_folder_empty_post :: jsstring where
  "txt_folder_empty_post =
     [0x300D, 0x8CC7, 0x6599, 0x593E, 0x4E2D, 0x627E, 0x4E0D, 0x5230, 0x53EF, 0x8B80,
       0x53D6, 0x7684, 0x6A94, 0x6848, 0x3002, 0x652F, 0x63F4, 0x7684, 0x683C, 0x5F0F,
       0x70BA, 0xFF1A]"

definition txt_folder_ok_pre :: jsstring where
  "txt_folder_ok_pre =
     [0x5DF2, 0x6210, 0x529F, 0x5F9E, 0x300C]"

definition txt_folder_ok_mid :: jsstring where
  "txt_folder_ok_mid =
     [0x300D, 0x8CC7, 0x6599, 0x593E, 0x8B80, 0x53D6] @ js '' ''"

definition txt_folder_ok_post :: jsstring where
  "txt_folder_ok_post =
     js '' '' @ [0x500B, 0x6A94, 0x6848, 0x3002, 0x5176, 0x5167, 0x5BB9, 0x5C07, 0x6703,
       0x4F5C, 0x70BA, 0x63D0, 0x554F, 0x7684, 0x4E0A, 0x4E0B, 0x6587, 0x3002]"

definition txt_folder_dropped_pre :: jsstring where
  "txt_folder_dropped_pre =
     [0x000A, 0x000A, 0x6CE8, 0x610F, 0xFF1A, 0x56E0, 0x8D85, 0x51FA, 0x7E3D, 0x9577,
       0x5EA6, 0x9650, 0x5236, 0xFF0C, 0x6709] @ js '' ''"

definition txt_folder_dropped_post :: jsstring where
  "txt_folder_dropped_post =
     js '' '' @ [0x500B, 0x6A94, 0x6848, 0x672A, 0x88AB, 0x8F09, 0x5165, 0x3002]"

definition txt_context_removed_pre :: jsstring where
  "txt_context_removed_pre =
     [0x5DF2, 0x79FB, 0x9664, 0x672C, 0x6A5F, 0x4E0A, 0x4E0B, 0x6587, 0xFF1A, 0x300C]"

definition txt_send_no_key :: jsstring where
  "txt_send_no_key =
     [0x932F, 0x8AA4, 0xFF1A] @ js ''API '' @ [0x91D1, 0x9470] @
       js '' (process.env.API_KEY) '' @ [0x5C1A, 0x672A, 0x8A2D, 0x5B9A, 0x3002, 0x8ACB,
       0x5148, 0x8A2D, 0x5B9A, 0x624D, 0x80FD, 0x50B3, 0x9001, 0x8A0A, 0x606F, 0x3002]"

definition txt_thinking :: jsstring where
  "txt_thinking =
     [0x601D, 0x8003, 0x4E2D] @ js ''...''"

definition txt_empty_response :: jsstring where
  "txt_empty_response =
     [0x6211, 0x6536, 0x5230, 0x4E86, 0x7A7A, 0x7684, 0x56DE, 0x61C9, 0x3002]"

definition txt_send_default_error :: jsstring where
  "txt_send_default_error =
     [0x7121, 0x6CD5, 0x5F9E] @ js '' AI '' @ [0x53D6, 0x5F97, 0x56DE, 0x61C9, 0x3002]"

definition txt_error_pre :: jsstring where
  "txt_error_pre =
     [0x932F, 0x8AA4, 0xFF1A] @ js '' ''"

definition INITIAL_URL_GROUPS :: "URLGroup list" where
  "INITIAL_URL_GROUPS =
     [\<lparr>group_id = js ''gemini-overview'', group_name = txt_group_overview,
       group_urls = GEMINI_DOCS_URLS\<rparr>,
      \<lparr>group_id = js ''model-capabilities'', group_name = txt_group_capabilities,
       group_urls = MODEL_CAPABILITIES_URLS\<rparr>]"

definition MAX_URLS :: nat where
  "MAX_URLS = 50"

text \<open>
  The state variables of the component. React compares a state variable and an effect
  dependency with \<open>Object.is\<close>: a string by value, an array by reference.
  \<open>urlGroups_ref\<close> stands for the reference of the array in \<open>urlGroups\<close>; it counts
  the arrays stored there. Every call of \<open>setUrlGroups\<close> in the source passes an array
  that \<open>map\<close>, \<open>filter\<close> or a spread has just built, hence a new reference.
\<close>

record AppState =
  urlGroups :: "URLGroup list"
  urlGroups_ref :: nat
  activeUrlGroupId :: jsstring
  isSidebarOpen :: bool
  isAddGroupModalOpen :: bool
  chatMessages :: "ChatMessage list"
  isLoading :: bool
  isFetchingSuggestions :: bool
  initialQuerySuggestions :: "jsstring list"
  localContext :: "LocalContext option"
  isProcessingFiles :: bool

definition initialState :: AppState where
  "initialState =
     \<lparr>urlGroups = INITIAL_URL_GROUPS,
      urlGroups_ref = 0,
      activeUrlGroupId = js ''gemini-overview'',
      isSidebarOpen = False,
      isAddGroupModalOpen = False,
      chatMessages = [],
      isLoading = False,
      isFetchingSuggestions = False,
      initialQuerySuggestions = [],
      localContext = None,
      isProcessingFiles = False\<rparr>"

definition setUrlGroups :: "URLGroup list \<Rightarrow> AppState \<Rightarrow> AppState" where
  "setUrlGroups groups st = st\<lparr>urlGroups := groups, urlGroups_ref := Suc (urlGroups_ref st)\<rparr>"

definition setActiveUrlGroupId :: "jsstring \<Rightarrow> AppState \<Rightarrow> AppState" where
  "setActiveUrlGroupId groupId st = st\<lparr>activeUrlGroupId := groupId\<rparr>"

definition activeGroup :: "AppState \<Rightarrow> URLGroup option" where
  "activeGroup st = find (\<lambda>g. group_id g = activeUrlGroupId st) (urlGroups st)"

definition currentUrlsForChat :: "AppState \<Rightarrow> jsstring list" where
  "currentUrlsForChat st = (case activeGroup st of Some g \<Rightarrow> group_urls g | None \<Rightarrow> [])"

text \<open>
  Every system message of the source is \<open>{ id: `<prefix>${Date.now()}`, text, sender:
  MessageSender.SYSTEM, timestamp: new Date() }\<close>. A handler reads the clock several
  times in one synchronous run; the model gives the run one reading, \<open>now\<close>.
\<close>

definition systemMessage :: "jsstring \<Rightarrow> jsstring \<Rightarrow> nat \<Rightarrow> ChatMessage" where
  "systemMessage prefix t now =
     \<lparr>msg_id = prefix @ toString now, msg_text = t, sender = SYSTEM, timestamp = now,
      isLoading_msg = None, urlContext = None\<rparr>"

definition appendMessages :: "ChatMessage list \<Rightarrow> AppState \<Rightarrow> AppState" where
  "appendMessages ms st = st\<lparr>chatMessages := chatMessages st @ ms\<rparr>"

subsection \<open>The welcome effect\<close>

definition welcomeMessageText :: "jsstring option \<Rightarrow> AppState \<Rightarrow> jsstring" where
  "welcomeMessageText apiKey st =
     (if \<not> truthy apiKey then txt_welcome_no_key
      else txt_welcome_pre
           @ (case activeGroup st of
                None \<Rightarrow> txt_none
              | Some currentActiveGroup \<Rightarrow>
                  if group_name currentActiveGroup \<noteq> [] then group_name currentActiveGroup
                  else txt_none)
           @ txt_welcome_post)"

definition welcomeMessage :: "jsstring option \<Rightarrow> nat \<Rightarrow> AppState \<Rightarrow> ChatMessage" where
  "welcomeMessage apiKey now st =
     systemMessage (js ''system-welcome-'' @ activeUrlGroupId st @ js ''-'')
       (welcomeMessageText apiKey st) now"

definition welcomeEffect :: "jsstring option \<Rightarrow> nat \<Rightarrow> AppState \<Rightarrow> AppState" where
  "welcomeEffect apiKey now st =
     st\<lparr>localContext := None, chatMessages := [welcomeMessage apiKey now st]\<rparr>"

text \<open>
  \<open>useEffect(..., [activeUrlGroupId, urlGroups])\<close>: after a render, React runs the
  effect if one of the two dependencies differs from its value at the previous
  render, \<open>prev\<close>. (It also runs it after the first render.)
\<close>

definition useEffect_welcome :: "jsstring option \<Rightarrow> nat \<Rightarrow> AppState \<Rightarrow> AppState \<Rightarrow> AppState" where
  "useEffect_welcome apiKey now prev st =
     (if activeUrlGroupId st \<noteq> activeUrlGroupId prev \<or> urlGroups_ref st \<noteq> urlGroups_ref prev
      then welcomeEffect apiKey now st
      else st)"

subsection \<open>Suggestions\<close>

text \<open>
  \<open>/^```(\w*)?\s*\n?(.*?)\n?\s*```$/s\<close>. With the flag \<open>s\<close> the dot matches every
  code unit. Group 1 is never read; its optional \<open>\w*\<close> matches what a plain \<open>\w*\<close>
  matches, in the same order of attempts. The capture is group 2.
\<close>

definition backtick :: item where
  "backtick = once (\<lambda>c. c = 0x60)"

definition wordChars :: item where
  "wordChars = star isWordChar"

definition spaces :: item where
  "spaces = star isWhiteSpace"

definition newline :: item where
  "newline = opt (\<lambda>c. c = 0x0A)"

definition lazyGroup :: item where
  "lazyGroup = \<lparr>cls = (\<lambda>c. True), quant = StarLazy, captured = True\<rparr>"

definition fenceRegex :: "item list" where
  "fenceRegex =
     [backtick, backtick, backtick, wordChars, spaces, newline, lazyGroup, newline, spaces,
      backtick, backtick, backtick]"

text \<open>
  The body of the inner \<open>try\<close>, for a truthy \<open>response.text\<close>: the strings found, or
  which of the two failure branches is taken. A primitive and an array have no
  property \<open>suggestions\<close>, so the falsy values \<open>null\<close>, \<open>false\<close>, \<open>0\<close> and \<open>""\<close>
  take the same branch as the other values whose \<open>suggestions\<close> is not an array.
\<close>

datatype parsed_suggestions = Suggestions "jsstring list" | FormatMismatch | ParseFailure

definition unfence :: "jsstring \<Rightarrow> jsstring" where
  "unfence t =
     (let jsonStr = trim t
      in case rmatch fenceRegex jsonStr [] of
           None \<Rightarrow> jsonStr
         | Some group2 \<Rightarrow> if group2 \<noteq> [] then trim group2 else jsonStr)"

fun strings :: "json list \<Rightarrow> jsstring list" where
  "strings [] = []"
| "strings (JString s # vs) = s # strings vs"
| "strings (_ # vs) = strings vs"

definition parseSuggestions :: "jsstring \<Rightarrow> parsed_suggestions" where
  "parseSuggestions t =
     (case JSON_parse (unfence t) of
        None \<Rightarrow> ParseFailure
      | Some parsed \<Rightarrow>
          (case suggestionsProperty parsed of
             Some (JArray vs) \<Rightarrow> Suggestions (strings vs)
           | _ \<Rightarrow> FormatMismatch))"

text \<open>
  \<open>fetchAndSetInitialSuggestions\<close> up to its \<open>await\<close>, and from there on, given what
  \<open>getInitialSuggestions\<close> settled to.
\<close>

definition fetchAndSetInitialSuggestions ::
  "jsstring option \<Rightarrow> jsstring list \<Rightarrow> AppState \<Rightarrow> AppState \<times> service_step option" where
  "fetchAndSetInitialSuggestions apiKey currentUrls st =
     (if length currentUrls = 0 then (st\<lparr>initialQuerySuggestions := []\<rparr>, None)
      else (st\<lparr>isFetchingSuggestions := True, initialQuerySuggestions := []\<rparr>,
            Some (getInitialSuggestions apiKey currentUrls)))"

text \<open>
  The body of the second effect, which is the only caller of
  \<open>fetchAndSetInitialSuggestions\<close>.
\<close>

definition suggestionsEffect ::
  "jsstring option \<Rightarrow> AppState \<Rightarrow> AppState \<times> service_step option" where
  "suggestionsEffect apiKey st =
     (if length (currentUrlsForChat st) > 0 \<and> truthy apiKey
      then fetchAndSetInitialSuggestions apiKey (currentUrlsForChat st) st
      else (st\<lparr>initialQuerySuggestions := []\<rparr>, None))"

definition finishSuggestions :: "jsstring list \<Rightarrow> AppState \<Rightarrow> AppState" where
  "finishSuggestions suggestionsArray st =
     st\<lparr>initialQuerySuggestions := take 4 suggestionsArray, isFetchingSuggestions := False\<rparr>"

definition fetchAndSetInitialSuggestions_settled ::
  "nat \<Rightarrow> jsstring + GeminiResponse \<Rightarrow> AppState \<Rightarrow> AppState" where
  "fetchAndSetInitialSuggestions_settled now outcome st =
     (case outcome of
        Inl message \<Rightarrow>
          (appendMessages
             [systemMessage (js ''sys-err-suggestion-fetch-'')
                (txt_suggestion_fetch_pre
                 @ (if message \<noteq> [] then message else txt_suggestion_fetch_default)) now] st)
          \<lparr>isFetchingSuggestions := False\<rparr>
      | Inr response \<Rightarrow>
          (case response_text response of
             None \<Rightarrow> finishSuggestions [] st
           | Some t \<Rightarrow>
               if t = [] then finishSuggestions [] st
               else
                 (case parseSuggestions t of
                    Suggestions suggestionsArray \<Rightarrow> finishSuggestions suggestionsArray st
                  | FormatMismatch \<Rightarrow>
                      finishSuggestions []
                        (appendMessages
                           [systemMessage (js ''sys-err-suggestion-fmt-'')
                              txt_suggestion_format now] st)
                  | ParseFailure \<Rightarrow>
                      finishSuggestions []
                        (appendMessages
                           [systemMessage (js ''sys-err-suggestion-parse-'')
                              txt_suggestion_parse now] st))))"

subsection \<open>URLs and groups\<close>

definition handleAddUrl :: "jsstring \<Rightarrow> AppState \<Rightarrow> AppState" where
  "handleAddUrl url st =
     setUrlGroups
       (map (\<lambda>g.
               if group_id g = activeUrlGroupId st then
                 if length (group_urls g) < MAX_URLS \<and> url \<notin> set (group_urls g)
                 then g\<lparr>group_urls := group_urls g @ [url]\<rparr>
                 else g
               else g)
          (urlGroups st)) st"

definition handleRemoveUrl :: "jsstring \<Rightarrow> AppState \<Rightarrow> AppState" where
  "handleRemoveUrl urlToRemove st =
     setUrlGroups
       (map (\<lambda>g.
               if group_id g = activeUrlGroupId st
               then g\<lparr>group_urls := filter (\<lambda>url. url \<noteq> urlToRemove) (group_urls g)\<rparr>
               else g)
          (urlGroups st)) st"

text \<open>
  How a handler that opens a dialog or can throw ends. \<open>window.confirm\<close> returns the
  user's answer, an argument of the model.
\<close>

datatype handler_outcome = Completed | Alerted jsstring | ThrewTypeError

definition handleAddGroup :: "nat \<Rightarrow> jsstring \<Rightarrow> AppState \<Rightarrow> AppState \<times> handler_outcome" where
  "handleAddGroup now name st =
     (if trim name = [] \<or> list_ex (\<lambda>g. group_name g = trim name) (urlGroups st)
      then (st, Alerted txt_group_name_alert)
      else
        let newGroup = \<lparr>group_id = js ''group-'' @ toString now, group_name = trim name,
                         group_urls = []\<rparr>
        in ((setUrlGroups (urlGroups st @ [newGroup]) st)
              \<lparr>activeUrlGroupId := group_id newGroup, isAddGroupModalOpen := False\<rparr>,
            Completed))"

text \<open>
  \<open>newGroups[0].id\<close> throws a TypeError on an empty array; \<open>setUrlGroups\<close> has been
  called by then.
\<close>

definition handleRemoveGroup :: "bool \<Rightarrow> jsstring \<Rightarrow> AppState \<Rightarrow> AppState \<times> handler_outcome" where
  "handleRemoveGroup confirmed groupId st =
     (if length (urlGroups st) \<le> 1 then (st, Alerted txt_last_group_alert)
      else if confirmed then
        let newGroups = filter (\<lambda>g. group_id g \<noteq> groupId) (urlGroups st);
            st1 = setUrlGroups newGroups st
        in if activeUrlGroupId st = groupId then
             (case newGroups of
                [] \<Rightarrow> (st1, ThrewTypeError)
              | g # _ \<Rightarrow> (setActiveUrlGroupId (group_id g) st1, Completed))
           else (st1, Completed)
      else (st, Completed))"

subsection \<open>Uploads\<close>

text \<open>
  \<open>handleFileUpload\<close> up to the promise: the state, and whether a read was started.
  \<open>handleFileUpload_settled\<close> is what follows once the read has resolved to a text
  (\<open>then\<close>) or rejected (\<open>catch\<close>), and then \<open>finally\<close>.
\<close>

definition contentPromise :: "readers \<Rightarrow> File \<Rightarrow> jsstring option" where
  "contentPromise rd f =
     (let ext = extension (file_name f)
      in if ext = js ''.docx'' then readDocxFile rd f
         else if ext = js ''.pdf'' then readPdfFile rd f
         else readTextFile rd f)"

definition handleFileUpload :: "nat \<Rightarrow> File \<Rightarrow> AppState \<Rightarrow> AppState \<times> bool" where
  "handleFileUpload now f st =
     (if extension (file_name f) \<notin> set ALLOWED_EXTENSIONS
      then (appendMessages
              [systemMessage (js ''sys-file-error-type-'')
                 (txt_file_type_pre @ file_name f @ txt_quote_stop) now] st,
            False)
      else (st\<lparr>isProcessingFiles := True\<rparr>, True))"

definition handleFileUpload_settled :: "nat \<Rightarrow> File \<Rightarrow> jsstring option \<Rightarrow> AppState \<Rightarrow> AppState" where
  "handleFileUpload_settled now f settled st =
     (case settled of
        Some content \<Rightarrow>
          (let wasTruncated = length content > MAX_CONTEXT_CHARS;
               finalContent = (if wasTruncated then take MAX_CONTEXT_CHARS content else content);
               st1 = st\<lparr>localContext :=
                          Some \<lparr>ctx_type = CtxFile, ctx_name = file_name f,
                                ctx_content = finalContent, ctx_count = 1\<rparr>\<rparr>;
               systemMessageText = txt_file_ok_pre @ file_name f @ txt_context_post
                                   @ (if wasTruncated then txt_file_truncated else [])
           in (appendMessages
                 [systemMessage (js ''sys-file-upload-'') systemMessageText now] st1)
              \<lparr>isProcessingFiles := False\<rparr>)
      | None \<Rightarrow>
          (appendMessages
             [systemMessage (js ''sys-file-error-read-'')
                (txt_file_read_pre @ file_name f @ txt_file_read_post) now] st)
          \<lparr>isProcessingFiles := False\<rparr>)"

definition folderName :: "File list \<Rightarrow> jsstring" where
  "folderName files =
     (case files of
        [] \<Rightarrow> txt_uploaded_folder
      | f # _ \<Rightarrow>
          (case split 0x2F (webkitRelativePath f) of
             [] \<Rightarrow> txt_uploaded_folder
           | x # _ \<Rightarrow> if x \<noteq> [] then x else txt_uploaded_folder))"

definition handleFolderUpload :: "nat \<Rightarrow> File list \<Rightarrow> AppState \<Rightarrow> AppState" where
  "handleFolderUpload now files st =
     appendMessages
       [systemMessage (js ''sys-folder-processing-'')
          (txt_folder_processing_pre @ folderName files @ txt_folder_processing_post) now]
       (st\<lparr>isProcessingFiles := True\<rparr>)"

text \<open>
  What follows once \<open>processFolder(files)\<close> has resolved to \<open>r\<close>. (\<open>processFolder\<close>
  catches the failure of every read, so the \<open>catch\<close> of the handler is not reached.)
\<close>

definition handleFolderUpload_settled ::
  "nat \<Rightarrow> File list \<Rightarrow> folderResult \<Rightarrow> AppState \<Rightarrow> AppState" where
  "handleFolderUpload_settled now files r st =
     (if processedCount r = 0 then
        (appendMessages
           [systemMessage (js ''sys-folder-empty-'')
              (txt_folder_empty_pre @ folderName files @ txt_folder_empty_post
               @ join (js '', '') ALLOWED_EXTENSIONS) now] st)
        \<lparr>isProcessingFiles := False\<rparr>
      else
        let st1 = st\<lparr>localContext :=
                       Some \<lparr>ctx_type = CtxFolder, ctx_name = folderName files,
                             ctx_content = fullContent r, ctx_count = processedCount r\<rparr>\<rparr>;
            systemMessageText =
              txt_folder_ok_pre @ folderName files @ txt_folder_ok_mid
              @ toString (processedCount r) @ txt_folder_ok_post
              @ (if processedCount r < totalValidFileCount r
                 then txt_folder_dropped_pre
                      @ toString (totalValidFileCount r - processedCount r)
                      @ txt_folder_dropped_post
                 else [])
        in (appendMessages
              [systemMessage (js ''sys-folder-upload-'') systemMessageText now] st1)
           \<lparr>isProcessingFiles := False\<rparr>)"

definition handleLocalContextRemove :: "nat \<Rightarrow> AppState \<Rightarrow> AppState" where
  "handleLocalContextRemove now st =
     (let contextName = (case localContext st of
                           None \<Rightarrow> js ''undefined''
                         | Some c \<Rightarrow> ctx_name c)
      in appendMessages
           [systemMessage (js ''sys-context-remove-'')
              (txt_context_removed_pre @ contextName @ txt_quote_stop) now]
           (st\<lparr>localContext := None\<rparr>))"

subsection \<open>Sending a message\<close>

definition userMessage :: "nat \<Rightarrow> jsstring \<Rightarrow> ChatMessage" where
  "userMessage now query =
     \<lparr>msg_id = js ''user-'' @ toString now, msg_text = query, sender = USER,
      timestamp = now, isLoading_msg = None, urlContext = None\<rparr>"

definition modelPlaceholderMessage :: "nat \<Rightarrow> ChatMessage" where
  "modelPlaceholderMessage now =
     \<lparr>msg_id = js ''model-response-'' @ toString now, msg_text = txt_thinking,
      sender = MODEL, timestamp = now, isLoading_msg = Some True, urlContext = None\<rparr>"

text \<open>
  \<open>handleSendMessage\<close> up to its \<open>await\<close>: the state, and what
  \<open>generateContentWithUrlContext\<close> did if it was called at all.
\<close>

definition handleSendMessage ::
  "jsstring option \<Rightarrow> nat \<Rightarrow> jsstring \<Rightarrow> AppState \<Rightarrow> AppState \<times> service_step option" where
  "handleSendMessage apiKey now query st =
     (if trim query = [] \<or> isLoading st \<or> isFetchingSuggestions st then (st, None)
      else if \<not> truthy apiKey then
        (appendMessages [systemMessage (js ''error-apikey-'') txt_send_no_key now] st, None)
      else
        ((appendMessages [userMessage now query, modelPlaceholderMessage now]
            (st\<lparr>isLoading := True, initialQuerySuggestions := []\<rparr>)),
         Some (generateContentWithUrlContext apiKey query (currentUrlsForChat st)
                 (map_option ctx_content (localContext st)))))"

definition handleSendMessage_settled ::
  "ChatMessage \<Rightarrow> jsstring + GeminiResponse \<Rightarrow> AppState \<Rightarrow> AppState" where
  "handleSendMessage_settled placeholder outcome st =
     (let final =
            (case outcome of
               Inr response \<Rightarrow>
                 placeholder
                   \<lparr>msg_text := (case response_text response of
                                   None \<Rightarrow> txt_empty_response
                                 | Some t \<Rightarrow> if t \<noteq> [] then t else txt_empty_response),
                    isLoading_msg := Some False,
                    urlContext := urlContextMetadata response\<rparr>
             | Inl message \<Rightarrow>
                 placeholder
                   \<lparr>msg_text := txt_error_pre
                                 @ (if message \<noteq> [] then message else txt_send_default_error),
                    sender := SYSTEM,
                    isLoading_msg := Some False\<rparr>)
      in st\<lparr>chatMessages :=
               map (\<lambda>msg. if msg_id msg = msg_id placeholder then final else msg)
                 (chatMessages st),
            isLoading := False\<rparr>)"

subsection \<open>The component as a transition system\<close>

text \<open>
  Everything that changes the state: a handler of the user interface, an effect after a
  render, or the settling of a promise. A promise may settle to any outcome and an
  effect may run after any render, so the states reached by these steps include every
  state of a run of the component.
\<close>

datatype event =
    WelcomeEffect nat
  | SuggestionsEffect
  | SuggestionsSettled nat "jsstring + GeminiResponse"
  | AddUrl jsstring
  | RemoveUrl jsstring
  | AddGroup nat jsstring
  | RemoveGroup bool jsstring
  | SetGroupId jsstring
  | FileUpload nat File
  | FileUploadSettled nat File
  | FolderUpload nat "File list"
  | FolderUploadSettled nat "File list"
  | LocalContextRemove nat
  | SendMessage nat jsstring
  | SendMessageSettled ChatMessage "jsstring + GeminiResponse"
  | SetSidebarOpen bool
  | SetAddGroupModalOpen bool

fun step :: "jsstring option \<Rightarrow> readers \<Rightarrow> event \<Rightarrow> AppState \<Rightarrow> AppState" where
  "step apiKey rd (WelcomeEffect now) st = welcomeEffect apiKey now st"
| "step apiKey rd SuggestionsEffect st = fst (suggestionsEffect apiKey st)"
| "step apiKey rd (SuggestionsSettled now outcome) st =
     fetchAndSetInitialSuggestions_settled now outcome st"
| "step apiKey rd (AddUrl url) st = handleAddUrl url st"
| "step apiKey rd (RemoveUrl url) st = handleRemoveUrl url st"
| "step apiKey rd (AddGroup now name) st = fst (handleAddGroup now name st)"
| "step apiKey rd (RemoveGroup confirmed groupId) st = fst (handleRemoveGroup confirmed groupId st)"
| "step apiKey rd (SetGroupId groupId) st = setActiveUrlGroupId groupId st"
| "step apiKey rd (FileUpload now f) st = fst (handleFileUpload now f st)"
| "step apiKey rd (FileUploadSettled now f) st =
     handleFileUpload_settled now f (contentPromise rd f) st"
| "step apiKey rd (FolderUpload now files) st = handleFolderUpload now files st"
| "step apiKey rd (FolderUploadSettled now files) st =
     handleFolderUpload_settled now files (processFolder rd files) st"
| "step apiKey rd (LocalContextRemove now) st = handleLocalContextRemove now st"
| "step apiKey rd (SendMessage now query) st = fst (handleSendMessage apiKey now query st)"
| "step apiKey rd (SendMessageSettled placeholder outcome) st =
     handleSendMessage_settled placeholder outcome st"
| "step apiKey rd (SetSidebarOpen b) st = st\<lparr>isSidebarOpen := b\<rparr>"
| "step apiKey rd (SetAddGroupModalOpen b) st = st\<lparr>isAddGroupModalOpen := b\<rparr>"

inductive reachable :: "jsstring option \<Rightarrow> readers \<Rightarrow> AppState \<Rightarrow> bool"
  for apiKey :: "jsstring option" and rd :: readers
where
  initial: "reachable apiKey rd initialState"
| step: "reachable apiKey rd st \<Longrightarrow> reachable apiKey rd (step apiKey rd e st)"

section \<open>Notions of the specification\<close>

text \<open>
  A result "with non-empty, non-whitespace-only text", and the sum of the text lengths
  of a list of results.
\<close>

definition hasText :: "fileResult \<Rightarrow> bool" where
  "hasText r \<longleftrightarrow> res_content r \<noteq> [] \<and> \<not> list_all isWhiteSpace (res_content r)"

definition textLength :: "fileResult list \<Rightarrow> nat" where
  "textLength rs = sum_list (map (\<lambda>r. length (res_content r)) rs)"

text \<open>
  A request asks for grounding if it carries a URL-context tool, and for the JSON
  response mode if it sets \<open>responseMimeType\<close> to \<open>application/json\<close>.
\<close>

definition requestsGrounding :: "GenerateContentParameters \<Rightarrow> bool" where
  "requestsGrounding req =
     (case tools (config req) of None \<Rightarrow> False | Some ts \<Rightarrow> ts \<noteq> [])"

definition requestsJsonMode :: "GenerateContentParameters \<Rightarrow> bool" where
  "requestsJsonMode req \<longleftrightarrow> responseMimeType (config req) = Some (js ''application/json'')"

section \<open>Example inputs\<close>

text \<open>
  Readers for plain text files of ASCII bytes, each byte one code unit, and a file of
  \<open>n\<close> letters \<open>a\<close> in a folder \<open>docs\<close>, with the result it is read to.
\<close>

definition exampleReaders :: readers where
  "exampleReaders =
     \<lparr>readDocxFile = (\<lambda>f. None), readPdfFile = (\<lambda>f. None),
      readTextFile = (\<lambda>f. Some (map ucast (bytes f)))\<rparr>"

definition textFile :: "string \<Rightarrow> nat \<Rightarrow> File" where
  "textFile name n =
     \<lparr>file_name = js name, webkitRelativePath = js ''docs/'' @ js name,
      bytes = replicate n 0x61\<rparr>"

definition textResult :: "string \<Rightarrow> nat \<Rightarrow> fileResult" where
  "textResult name n = \<lparr>res_name = js ''docs/'' @ js name, res_content = replicate n 0x61\<rparr>"

text \<open>Folders: the scenario of the specification, one for the greedy rule, one file at the limit.\<close>

definition scenarioFiles :: "File list" where
  "scenarioFiles = [textFile ''a.txt'' 400000, textFile ''b.md'' 400000, textFile ''c.py'' 400000]"

definition greedyFiles :: "File list" where
  "greedyFiles = [textFile ''a.txt'' 600000, textFile ''b.md'' 500000, textFile ''c.py'' 100]"

definition oversizeFolder :: "File list" where
  "oversizeFolder = [textFile ''a.txt'' 1000000]"

text \<open>
  The state after the first render, its welcome effect (no API key) and the upload of a
  file \<open>a.txt\<close> of five letters; a state with one group of given URLs.
\<close>

definition exampleState :: AppState where
  "exampleState =
     handleFileUpload_settled 1 (textFile ''a.txt'' 5)
       (contentPromise exampleReaders (textFile ''a.txt'' 5))
       (welcomeEffect None 0 initialState)"

text \<open>
  The state after two groups, \<open>A\<close> and \<open>B\<close>, have been added within the same
  millisecond: \<open>Date.now()\<close> gives both the same id.
\<close>

definition twinGroupsState :: AppState where
  "twinGroupsState =
     fst (handleAddGroup 5 (js ''B'') (fst (handleAddGroup 5 (js ''A'') initialState)))"

definition oneGroupState :: "jsstring list \<Rightarrow> AppState" where
  "oneGroupState us =
     initialState\<lparr>urlGroups := [\<lparr>group_id = js ''gemini-overview'',
                                  group_name = txt_group_overview, group_urls = us\<rparr>]\<rparr>"

definition exampleUrl :: jsstring where
  "exampleUrl = js ''https://example.com/''"


text \<open>Responses of the suggestion call.\<close>

definition textResponse :: "jsstring \<Rightarrow> GeminiResponse" where
  "textResponse t = \<lparr>response_text = Some t, urlContextMetadata = None\<rparr>"

definition fencedText :: jsstring where
  "fencedText =
     js ''```json'' @ [0x0A] @ js ''{\"suggestions\":[\"a\",\"b\"]}'' @ [0x0A] @ js ''```''"

definition mixedText :: jsstring where
  "mixedText = js ''{\"suggestions\":[\"a\",1]}''"

definition fiveText :: jsstring where
  "fiveText = js ''{\"suggestions\":[\"a\",\"b\",\"c\",\"d\",\"e\"]}''"

definition bareArrayText :: jsstring where
  "bareArrayText = js ''[\"a\",\"b\"]''"

definition brokenText :: jsstring where
  "brokenText = js ''{\"suggestions\":''"

text \<open>A key, and the two requests the service functions build for it.\<close>

definition exampleKey :: "jsstring option" where
  "exampleKey = Some (js ''key'')"

definition groundedRequest :: GenerateContentParameters where
  "groundedRequest =
     \<lparr>model = MODEL_NAME,
      contents = [\<lparr>role = js ''user'', parts = [js ''hi'' @ txt_answer_in_chinese]\<rparr>],
      config = \<lparr>tools = Some [urlContext [exampleUrl]],
                config_safetySettings = safetySettings,
                responseMimeType = None\<rparr>\<rparr>"

definition jsonRequest :: GenerateContentParameters where
  "jsonRequest =
     \<lparr>model = MODEL_NAME,
      contents = [\<lparr>role = js ''user'', parts = [txt_suggestion_prompt @ exampleUrl]\<rparr>],
      config = \<lparr>tools = None,
                config_safetySettings = safetySettings,
                responseMimeType = Some (js ''application/json'')\<rparr>\<rparr>"

section \<open>Strings\<close>

text \<open>\<open>js\<close> is injective, so literals are compared as HOL strings.\<close>

lemma unat_of_char: "unat (of_char c :: code_unit) = of_char c"
proof -
  have "(of_char c :: nat) mod 256 = of_char c" by (rule of_char_mod_256)
  then have "(of_char c :: nat) < 256"
    by (metis mod_less_divisor zero_less_numeral)
  then have "(of_char c :: nat) < 2 ^ 16" by (rule less_trans) simp
  then have "unat (of_nat (of_char c) :: code_unit) = of_char c"
    by (simp add: unat_of_nat)
  then show ?thesis by (simp add: of_nat_of_char)
qed

lemma of_char_word_eq_iff [simp]: "(of_char c :: code_unit) = of_char d \<longleftrightarrow> c = d"
proof
  assume "(of_char c :: code_unit) = of_char d"
  then have "unat (of_char c :: code_unit) = unat (of_char d :: code_unit)" by simp
  then have "(of_char c :: nat) = of_char d" by (simp only: unat_of_char)
  then show "c = d" by simp
qed simp

lemma js_eq_iff [simp]: "js a = js b \<longleftrightarrow> a = b"
  unfolding js_def by (rule inj_map_eq_map) (simp add: inj_on_def)

lemma js_simps [simp]:
  "js [] = []" "js (a @ b) = js a @ js b" "js s = [] \<longleftrightarrow> s = []" "length (js s) = length s"
  by (simp_all add: js_def)

lemma toString_not_Nil [simp]: "toString n \<noteq> []"
  by (subst toString.simps) simp

lemma trim_Nil_iff: "trim s = [] \<longleftrightarrow> list_all isWhiteSpace s"
proof
  assume "trim s = []"
  then have all: "\<forall>x \<in> set (dropWhile isWhiteSpace s). isWhiteSpace x"
    by (simp add: trim_def dropWhile_eq_Nil_conv)
  show "list_all isWhiteSpace s"
  proof (cases "dropWhile isWhiteSpace s")
    case Nil
    then show ?thesis by (simp add: dropWhile_eq_Nil_conv list_all_iff)
  next
    case (Cons y ys)
    then have "\<not> isWhiteSpace (hd (dropWhile isWhiteSpace s))"
      using hd_dropWhile [of isWhiteSpace s] by simp
    with Cons all show ?thesis by simp
  qed
next
  assume "list_all isWhiteSpace s"
  then have "dropWhile isWhiteSpace s = []"
    by (simp add: dropWhile_eq_Nil_conv list_all_iff)
  then show "trim s = []"
    by (simp only: trim_def rev.simps dropWhile.simps)
qed

text \<open>A text with no white space at either end is its own trimming.\<close>

lemma trim_id:
  assumes "s \<noteq> []" "\<not> isWhiteSpace (hd s)" "\<not> isWhiteSpace (last s)"
  shows "trim s = s"
proof -
  have "dropWhile isWhiteSpace s = s"
    using assms(1,2) by (cases s) simp_all
  moreover have "dropWhile isWhiteSpace (rev s) = rev s"
    using assms(1,3) by (cases "rev s") (simp_all add: last_rev [symmetric] del: last_rev)
  ultimately show ?thesis by (simp add: trim_def)
qed

section \<open>Folder ingestion\<close>

text \<open>The test of the loop is the specification's "non-empty, non-whitespace-only".\<close>

lemma loop_test_hasText:
  "(res_content r \<noteq> [] \<and> trim (res_content r) \<noteq> []) \<longleftrightarrow> hasText r"
  by (auto simp: hasText_def trim_Nil_iff)

lemma textLength_simps [simp]:
  "textLength [] = 0"
  "textLength (r # rs) = length (res_content r) + textLength rs"
  by (simp_all add: textLength_def)

text \<open>
  The loop appends a prefix of the results that have text: the longest one that fits
  what is left of the budget.
\<close>

lemma processFolder_loop_prefix:
  "t \<le> MAX_CONTEXT_CHARS \<Longrightarrow>
   \<exists>k \<le> length (filter hasText rs).
     processFolder_loop t acc rs = acc @ take k (filter hasText rs)
     \<and> t + textLength (take k (filter hasText rs)) \<le> MAX_CONTEXT_CHARS
     \<and> (k < length (filter hasText rs)
          \<longrightarrow> MAX_CONTEXT_CHARS < t + textLength (take (Suc k) (filter hasText rs)))"
proof (induction rs arbitrary: t acc)
  case Nil
  then show ?case by simp
next
  case (Cons r rs)
  show ?case
  proof (cases "hasText r")
    case False
    with Cons.IH [OF Cons.prems, of acc] show ?thesis
      by (simp add: loop_test_hasText)
  next
    case True
    show ?thesis
    proof (cases "t + length (res_content r) > MAX_CONTEXT_CHARS")
      case over: True
      have "processFolder_loop t acc (r # rs) = acc"
        using True over by (simp add: loop_test_hasText)
      with True over Cons.prems show ?thesis
        by (intro exI [of _ 0]) simp
    next
      case fits: False
      then have le: "t + length (res_content r) \<le> MAX_CONTEXT_CHARS" by simp
      from Cons.IH [OF le, of "acc @ [r]"] obtain k where
        k: "k \<le> length (filter hasText rs)"
        "processFolder_loop (t + length (res_content r)) (acc @ [r]) rs
           = (acc @ [r]) @ take k (filter hasText rs)"
        "t + length (res_content r) + textLength (take k (filter hasText rs)) \<le> MAX_CONTEXT_CHARS"
        "k < length (filter hasText rs) \<longrightarrow>
           MAX_CONTEXT_CHARS < t + length (res_content r) + textLength (take (Suc k) (filter hasText rs))"
        by blast
      have "processFolder_loop t acc (r # rs)
              = processFolder_loop (t + length (res_content r)) (acc @ [r]) rs"
        using True fits by (simp add: loop_test_hasText)
      with k True show ?thesis
        by (intro exI [of _ "Suc k"]) (simp add: add.assoc)
    qed
  qed
qed

lemma finalProcessedFiles_prefix:
  "\<exists>k \<le> length (filter hasText (allResults rd files)).
     finalProcessedFiles rd files = take k (filter hasText (allResults rd files))
     \<and> textLength (take k (filter hasText (allResults rd files))) \<le> MAX_CONTEXT_CHARS
     \<and> (k < length (filter hasText (allResults rd files))
          \<longrightarrow> MAX_CONTEXT_CHARS < textLength (take (Suc k) (filter hasText (allResults rd files))))"
  using processFolder_loop_prefix [of 0 "allResults rd files" "[]"]
  by (simp add: finalProcessedFiles_def)

lemma length_map_filter_le: "length (List.map_filter f xs) \<le> length xs"
  by (simp add: List.map_filter_def)

lemma processFolder_sel [simp]:
  "fullContent (processFolder rd files)
     = join [0x0A, 0x0A] (map fileHeader (finalProcessedFiles rd files))"
  "processedCount (processFolder rd files) = length (finalProcessedFiles rd files)"
  "totalValidFileCount (processFolder rd files) = length (validFiles files)"
  by (simp_all add: processFolder_def)

subsection \<open>The example files\<close>

lemma extension_examples:
  "extension (js ''a.txt'') = js ''.txt''"
  "extension (js ''b.md'') = js ''.md''"
  "extension (js ''c.py'') = js ''.py''"
  by code_simp+

lemma allowed_examples:
  "js ''.txt'' \<in> set ALLOWED_EXTENSIONS"
  "js ''.md'' \<in> set ALLOWED_EXTENSIONS"
  "js ''.py'' \<in> set ALLOWED_EXTENSIONS"
  by (simp_all add: ALLOWED_EXTENSIONS_def)

lemma filePromise_textFile:
  "name \<in> {''a.txt'', ''b.md'', ''c.py''} \<Longrightarrow>
   filePromise exampleReaders (textFile name n) = Some (textResult name n)"
  by (auto simp: filePromise_def textFile_def textResult_def exampleReaders_def
        extension_examples Let_def)

lemma valid_textFile:
  "name \<in> {''a.txt'', ''b.md'', ''c.py''} \<Longrightarrow>
   extension (file_name (textFile name n)) \<in> set ALLOWED_EXTENSIONS
   \<and> file_size (textFile name n) = n"
  by (auto simp: textFile_def file_size_def extension_examples allowed_examples)

lemma allResults_Nil [simp]: "allResults rd [] = []"
  by (simp add: allResults_def validFiles_def List.map_filter_simps)

lemma allResults_textFile:
  assumes "name \<in> {''a.txt'', ''b.md'', ''c.py''}" and "0 < n"
  shows "allResults exampleReaders (textFile name n # fs)
           = textResult name n # allResults exampleReaders fs"
proof -
  have "validFiles (textFile name n # fs) = textFile name n # validFiles fs"
    using assms valid_textFile [of name n] by (simp add: validFiles_def)
  then show ?thesis
    using filePromise_textFile [OF assms(1), of n]
    by (simp add: allResults_def List.map_filter_simps)
qed

lemma textResult_sel [simp]:
  "res_content (textResult name n) = replicate n 0x61"
  "res_name (textResult name n) = js ''docs/'' @ js name"
  by (simp_all add: textResult_def)

lemma hasText_textResult [simp]: "hasText (textResult name n) \<longleftrightarrow> 0 < n"
  by (auto simp: hasText_def list_all_iff isWhiteSpace_def)

lemma loop_textResult:
  "0 < n \<Longrightarrow>
   processFolder_loop t acc (textResult name n # rs)
     = (if t + n > MAX_CONTEXT_CHARS then acc
        else processFolder_loop (t + n) (acc @ [textResult name n]) rs)"
  using loop_test_hasText [of "textResult name n"] by simp

lemma scenario_allResults:
  "allResults exampleReaders scenarioFiles
     = [textResult ''a.txt'' 400000, textResult ''b.md'' 400000, textResult ''c.py'' 400000]"
  by (simp add: scenarioFiles_def allResults_textFile)

lemma scenario_final:
  "finalProcessedFiles exampleReaders scenarioFiles
     = [textResult ''a.txt'' 400000, textResult ''b.md'' 400000]"
  by (simp add: finalProcessedFiles_def scenario_allResults loop_textResult MAX_CONTEXT_CHARS_def
        del: processFolder_loop.simps(2))

lemma scenario_valid: "length (validFiles scenarioFiles) = 3"
  using valid_textFile [of "''a.txt''" 400000] valid_textFile [of "''b.md''" 400000]
    valid_textFile [of "''c.py''" 400000]
  by (simp add: scenarioFiles_def validFiles_def)

lemma greedy_allResults:
  "allResults exampleReaders greedyFiles
     = [textResult ''a.txt'' 600000, textResult ''b.md'' 500000, textResult ''c.py'' 100]"
  by (simp add: greedyFiles_def allResults_textFile)

lemma greedy_final:
  "finalProcessedFiles exampleReaders greedyFiles = [textResult ''a.txt'' 600000]"
  by (simp add: finalProcessedFiles_def greedy_allResults loop_textResult MAX_CONTEXT_CHARS_def
        del: processFolder_loop.simps(2))

subsection \<open>Claims C3 and C4\<close>

text \<open>
  Claim C3. A folder upload considers the files in the order of discovery and includes
  greedily a prefix. The candidates are the results with non-empty,
  non-whitespace-only text, in the order of the input (\<open>filter\<close> and \<open>map_filter\<close>
  keep the order of \<open>files\<close>). The files merged are exactly the first \<open>k\<close>
  candidates, each with its whole text; these fit the budget, and if there is a
  candidate after them, adding it would exceed \<open>MAX_CONTEXT_CHARS\<close>. It and every
  later file are left out: nothing is reordered, packed or cut.
\<close>

theorem folder_inclusion_is_prefix_greedy:
  "let candidates =
         filter hasText
           (List.map_filter (filePromise rd)
              (filter (\<lambda>f. extension (file_name f) \<in> set ALLOWED_EXTENSIONS \<and> file_size f > 0)
                 files));
       k = processedCount (processFolder rd files)
   in k \<le> length candidates
      \<and> finalProcessedFiles rd files = take k candidates
      \<and> fullContent (processFolder rd files)
          = join [0x0A, 0x0A] (map fileHeader (take k candidates))
      \<and> textLength (take k candidates) \<le> MAX_CONTEXT_CHARS
      \<and> (k < length candidates
           \<longrightarrow> MAX_CONTEXT_CHARS < textLength (take (Suc k) candidates))"
proof -
  define cs where "cs = filter hasText (allResults rd files)"
  have cs: "filter hasText
           (List.map_filter (filePromise rd)
              (filter (\<lambda>f. extension (file_name f) \<in> set ALLOWED_EXTENSIONS \<and> file_size f > 0)
                 files)) = cs"
    by (simp only: cs_def allResults_def validFiles_def)
  obtain k where k: "k \<le> length cs"
    "finalProcessedFiles rd files = take k cs"
    "textLength (take k cs) \<le> MAX_CONTEXT_CHARS"
    "k < length cs \<longrightarrow> MAX_CONTEXT_CHARS < textLength (take (Suc k) cs)"
    unfolding cs_def using finalProcessedFiles_prefix [of rd files] by blast
  have len: "length (finalProcessedFiles rd files) = k"
    using k(1,2) by simp
  show ?thesis
    unfolding Let_def processFolder_sel len cs
    using k by simp
qed

text \<open>
  At files of 600000, 500000 and 100 letters only the first is merged: the second
  would exceed the budget, and the third is left out although it would fit.
\<close>

theorem folder_inclusion_is_prefix_greedy_witness:
  "processedCount (processFolder exampleReaders greedyFiles) = 1
   \<and> processedCount (processFolder exampleReaders greedyFiles)
       < length (filter hasText (allResults exampleReaders greedyFiles))
   \<and> filter hasText (allResults exampleReaders greedyFiles)
       = [textResult ''a.txt'' 600000, textResult ''b.md'' 500000, textResult ''c.py'' 100]
   \<and> finalProcessedFiles exampleReaders greedyFiles = [textResult ''a.txt'' 600000]
   \<and> MAX_CONTEXT_CHARS
       < textLength [textResult ''a.txt'' 600000, textResult ''b.md'' 500000]"
  using folder_inclusion_is_prefix_greedy [of exampleReaders greedyFiles]
  by (simp add: greedy_final greedy_allResults Let_def allResults_def [symmetric]
        validFiles_def [symmetric])

text \<open>
  Claim C4. In a folder upload the number of files merged is at most the number of
  eligible files (allowed extension and at least one byte), which is what
  \<open>totalValidFileCount\<close> reports, and the text lengths of the files merged sum to at
  most \<open>MAX_CONTEXT_CHARS\<close>.
\<close>

theorem folder_counts_and_budget:
  "processedCount (processFolder rd files) \<le> totalValidFileCount (processFolder rd files)
   \<and> totalValidFileCount (processFolder rd files)
       = length (filter (\<lambda>f. extension (file_name f) \<in> set ALLOWED_EXTENSIONS \<and> file_size f > 0)
                   files)
   \<and> textLength (finalProcessedFiles rd files) \<le> MAX_CONTEXT_CHARS"
proof -
  define cs where "cs = filter hasText (allResults rd files)"
  obtain k where k: "k \<le> length cs"
    "finalProcessedFiles rd files = take k cs"
    "textLength (take k cs) \<le> MAX_CONTEXT_CHARS"
    unfolding cs_def using finalProcessedFiles_prefix [of rd files] by blast
  have "length (finalProcessedFiles rd files) = k"
    using k(1,2) by simp
  also have "k \<le> length (allResults rd files)"
    using k(1) unfolding cs_def by (rule le_trans) simp
  also have "\<dots> \<le> length (validFiles files)"
    unfolding allResults_def by (rule length_map_filter_le)
  finally have 1: "length (finalProcessedFiles rd files) \<le> length (validFiles files)" .
  have 2: "length (validFiles files)
       = length (filter (\<lambda>f. extension (file_name f) \<in> set ALLOWED_EXTENSIONS \<and> file_size f > 0)
                   files)"
    by (simp only: validFiles_def)
  have 3: "textLength (finalProcessedFiles rd files) \<le> MAX_CONTEXT_CHARS"
    using k(2,3) by simp
  show ?thesis
    unfolding processFolder_sel using 1 2 3 by blast
qed

text \<open>
  The scenario of the specification: three eligible files of 400000 characters each;
  the first two are merged, the third is not.
\<close>

theorem folder_counts_and_budget_witness:
  "processedCount (processFolder exampleReaders scenarioFiles) = 2
   \<and> totalValidFileCount (processFolder exampleReaders scenarioFiles) = 3
   \<and> textLength (finalProcessedFiles exampleReaders scenarioFiles) = 800000
   \<and> 800000 \<le> MAX_CONTEXT_CHARS"
  using folder_counts_and_budget [of exampleReaders scenarioFiles]
  by (simp add: scenario_final scenario_valid MAX_CONTEXT_CHARS_def)

section \<open>Uploads\<close>

lemma appendMessages_sel [simp]:
  "chatMessages (appendMessages ms st) = chatMessages st @ ms"
  "isLoading (appendMessages ms st) = isLoading st"
  "isFetchingSuggestions (appendMessages ms st) = isFetchingSuggestions st"
  "localContext (appendMessages ms st) = localContext st"
  "urlGroups (appendMessages ms st) = urlGroups st"
  "urlGroups_ref (appendMessages ms st) = urlGroups_ref st"
  "activeUrlGroupId (appendMessages ms st) = activeUrlGroupId st"
  "initialQuerySuggestions (appendMessages ms st) = initialQuerySuggestions st"
  by (simp_all add: appendMessages_def)

lemma handleFileUpload_settled_Some:
  "localContext (handleFileUpload_settled now f (Some content) st)
     = Some \<lparr>ctx_type = CtxFile, ctx_name = file_name f,
             ctx_content = (if length content > MAX_CONTEXT_CHARS
                            then take MAX_CONTEXT_CHARS content else content),
             ctx_count = 1\<rparr>"
  "chatMessages (handleFileUpload_settled now f (Some content) st)
     = chatMessages st
       @ [systemMessage (js ''sys-file-upload-'')
            (txt_file_ok_pre @ file_name f @ txt_context_post
             @ (if length content > MAX_CONTEXT_CHARS then txt_file_truncated else [])) now]"
  by (simp_all add: handleFileUpload_settled_def Let_def)

lemma handleFolderUpload_settled_context:
  "processedCount r \<noteq> 0 \<Longrightarrow>
   localContext (handleFolderUpload_settled now files r st)
     = Some \<lparr>ctx_type = CtxFolder, ctx_name = folderName files,
             ctx_content = fullContent r, ctx_count = processedCount r\<rparr>"
  by (simp add: handleFolderUpload_settled_def Let_def)

text \<open>The note on truncation is not empty: the two messages of claim C2 differ.\<close>

lemma txt_file_truncated_not_Nil: "txt_file_truncated \<noteq> []"
  by (simp add: txt_file_truncated_def)

text \<open>The context a single file leaves is within the limit.\<close>

lemma file_context_within_limit:
  assumes "localContext (handleFileUpload_settled now f settled st) = Some c"
    and "localContext st = None"
  shows "length (ctx_content c) \<le> MAX_CONTEXT_CHARS"
proof (cases settled)
  case None
  then have "localContext (handleFileUpload_settled now f settled st) = localContext st"
    by (simp add: handleFileUpload_settled_def)
  with assms show ?thesis by simp
next
  case (Some content)
  with assms(1) have "ctx_content c
      = (if length content > MAX_CONTEXT_CHARS then take MAX_CONTEXT_CHARS content else content)"
    by (auto simp: handleFileUpload_settled_Some(1))
  then show ?thesis by simp
qed

lemma oversize_final:
  "finalProcessedFiles exampleReaders oversizeFolder = [textResult ''a.txt'' 1000000]"
  by (simp add: finalProcessedFiles_def oversizeFolder_def allResults_textFile loop_textResult
        MAX_CONTEXT_CHARS_def del: processFolder_loop.simps(2))

text \<open>
  Claim C1. The content of every attached local context is at most
  \<open>MAX_CONTEXT_CHARS\<close> long. The folder path does not keep this: the budget counts the
  texts of the files, and the merged content adds a header line per file and a blank
  line between files. For a folder whose only file is \<open>docs/a.txt\<close> with 1000000
  letters, the file fits the budget and the attached content has 1000025 code units.
\<close>

theorem folder_context_exceeds_limit:
  "map_option (\<lambda>c. length (ctx_content c))
     (localContext
        (handleFolderUpload_settled 0 oversizeFolder
           (processFolder exampleReaders oversizeFolder) initialState))
     = Some 1000025
   \<and> MAX_CONTEXT_CHARS < 1000025"
  by (simp add: handleFolderUpload_settled_context oversize_final fileHeader_def
        MAX_CONTEXT_CHARS_def)

text \<open>
  Claim C2. When the read of a single file has resolved to a text longer than
  \<open>MAX_CONTEXT_CHARS\<close>, the attached content is exactly the first
  \<open>MAX_CONTEXT_CHARS\<close> code units of it and the message appended carries the note on
  truncation; otherwise the attached content is the text and the message has no note.
\<close>

theorem single_file_truncation:
  "(length content > MAX_CONTEXT_CHARS \<longrightarrow>
      localContext (handleFileUpload_settled now f (Some content) st)
        = Some \<lparr>ctx_type = CtxFile, ctx_name = file_name f,
                ctx_content = take MAX_CONTEXT_CHARS content, ctx_count = 1\<rparr>
      \<and> length (take MAX_CONTEXT_CHARS content) = MAX_CONTEXT_CHARS
      \<and> chatMessages (handleFileUpload_settled now f (Some content) st)
          = chatMessages st
            @ [systemMessage (js ''sys-file-upload-'')
                 (txt_file_ok_pre @ file_name f @ txt_context_post @ txt_file_truncated) now])
   \<and> (\<not> length content > MAX_CONTEXT_CHARS \<longrightarrow>
      localContext (handleFileUpload_settled now f (Some content) st)
        = Some \<lparr>ctx_type = CtxFile, ctx_name = file_name f,
                ctx_content = content, ctx_count = 1\<rparr>
      \<and> chatMessages (handleFileUpload_settled now f (Some content) st)
          = chatMessages st
            @ [systemMessage (js ''sys-file-upload-'')
                 (txt_file_ok_pre @ file_name f @ txt_context_post) now])"
  by (simp add: handleFileUpload_settled_Some)

theorem single_file_truncation_witness:
  "length (replicate 1000001 (0x61 :: code_unit)) > MAX_CONTEXT_CHARS
   \<and> map_option ctx_content
        (localContext (handleFileUpload_settled 0 (textFile ''a.txt'' 1000001)
           (Some (replicate 1000001 0x61)) initialState))
       = Some (replicate 1000000 0x61)
   \<and> \<not> length (js ''hello'') > MAX_CONTEXT_CHARS
   \<and> map_option ctx_content
        (localContext (handleFileUpload_settled 0 (textFile ''a.txt'' 5)
           (Some (js ''hello'')) initialState))
       = Some (js ''hello'')"
  using single_file_truncation [of "replicate 1000001 0x61" 0 "textFile ''a.txt'' 1000001" initialState]
    single_file_truncation [of "js ''hello''" 0 "textFile ''a.txt'' 5" initialState]
  by (simp add: MAX_CONTEXT_CHARS_def)

section \<open>Requests\<close>

lemma generateContentWithUrlContext_Calls:
  "generateContentWithUrlContext k prompt urls fc = Calls req \<Longrightarrow>
   tools (config req) = Some (if urls = [] then [] else [urlContext urls])
   \<and> responseMimeType (config req) = None"
  by (auto simp: generateContentWithUrlContext_def Let_def split: if_splits)

lemma getInitialSuggestions_Calls:
  "getInitialSuggestions k urls = Calls req \<Longrightarrow>
   tools (config req) = None \<and> responseMimeType (config req) = Some (js ''application/json'')"
  by (auto simp: getInitialSuggestions_def Let_def split: if_splits)

text \<open>The two callers in \<open>App\<close> pass on what the service functions do.\<close>

lemma handleSendMessage_step:
  "snd (handleSendMessage k now query st) = Some s \<Longrightarrow>
   s = generateContentWithUrlContext k query (currentUrlsForChat st)
         (map_option ctx_content (localContext st))"
  by (auto simp: handleSendMessage_def split: if_splits)

lemma fetchAndSetInitialSuggestions_step:
  "snd (fetchAndSetInitialSuggestions k urls st) = Some s \<Longrightarrow> s = getInitialSuggestions k urls"
  by (auto simp: fetchAndSetInitialSuggestions_def split: if_splits)

lemma exampleKey_truthy: "truthy exampleKey"
  by (simp add: exampleKey_def truthy_def)

lemma example_requests:
  "generateContentWithUrlContext exampleKey (js ''hi'') [exampleUrl] None = Calls groundedRequest"
  "getInitialSuggestions exampleKey [exampleUrl] = Calls jsonRequest"
  by (simp_all add: generateContentWithUrlContext_def getInitialSuggestions_def exampleKey_truthy
        groundedRequest_def jsonRequest_def Let_def)

lemma oneGroupState_sel [simp]:
  "urlGroups (oneGroupState us)
     = [\<lparr>group_id = js ''gemini-overview'', group_name = txt_group_overview, group_urls = us\<rparr>]"
  "activeUrlGroupId (oneGroupState us) = js ''gemini-overview''"
  "isLoading (oneGroupState us) = False"
  "isFetchingSuggestions (oneGroupState us) = False"
  "localContext (oneGroupState us) = None"
  by (simp_all add: oneGroupState_def initialState_def)

lemma currentUrlsForChat_oneGroupState [simp]: "currentUrlsForChat (oneGroupState us) = us"
  by (simp add: currentUrlsForChat_def activeGroup_def)

lemma trim_hi: "trim (js ''hi'') \<noteq> []"
  by (simp add: trim_Nil_iff js_def isWhiteSpace_def)

text \<open>
  Claim C7. No call to the backend carries both a grounding tool and the JSON response
  mode. \<open>generateContentWithUrlContext\<close> sets \<open>tools\<close> (to the URL-context tool when
  there are URLs) and never \<open>responseMimeType\<close>; \<open>getInitialSuggestions\<close> sets
  \<open>responseMimeType\<close> to \<open>application/json\<close> and never \<open>tools\<close>. These are the only
  two functions that call the backend, and \<open>handleSendMessage\<close> and
  \<open>fetchAndSetInitialSuggestions\<close> are their only callers.
\<close>

theorem grounding_excludes_json_mode:
  "(generateContentWithUrlContext k prompt urls fc = Calls req \<longrightarrow>
      responseMimeType (config req) = None
      \<and> tools (config req) = Some (if urls = [] then [] else [urlContext urls])
      \<and> \<not> requestsJsonMode req)
   \<and> (getInitialSuggestions k urls = Calls req \<longrightarrow>
      tools (config req) = None
      \<and> responseMimeType (config req) = Some (js ''application/json'')
      \<and> \<not> requestsGrounding req)
   \<and> (snd (handleSendMessage k now query st) = Some (Calls req) \<longrightarrow>
      \<not> (requestsGrounding req \<and> requestsJsonMode req))
   \<and> (snd (fetchAndSetInitialSuggestions k urls st) = Some (Calls req) \<longrightarrow>
      \<not> (requestsGrounding req \<and> requestsJsonMode req))"
proof (intro conjI impI)
  assume a: "generateContentWithUrlContext k prompt urls fc = Calls req"
  from generateContentWithUrlContext_Calls [OF a]
  show "responseMimeType (config req) = None"
    and "tools (config req) = Some (if urls = [] then [] else [urlContext urls])"
    and "\<not> requestsJsonMode req"
    by (simp_all add: requestsJsonMode_def)
next
  assume a: "getInitialSuggestions k urls = Calls req"
  from getInitialSuggestions_Calls [OF a]
  show "tools (config req) = None"
    and "responseMimeType (config req) = Some (js ''application/json'')"
    and "\<not> requestsGrounding req"
    by (simp_all add: requestsGrounding_def)
next
  assume "snd (handleSendMessage k now query st) = Some (Calls req)"
  from handleSendMessage_step [OF this, symmetric]
  have "responseMimeType (config req) = None"
    using generateContentWithUrlContext_Calls by blast
  then show "\<not> (requestsGrounding req \<and> requestsJsonMode req)"
    by (simp add: requestsJsonMode_def)
next
  assume "snd (fetchAndSetInitialSuggestions k urls st) = Some (Calls req)"
  from fetchAndSetInitialSuggestions_step [OF this, symmetric]
  have "tools (config req) = None"
    using getInitialSuggestions_Calls by blast
  then show "\<not> (requestsGrounding req \<and> requestsJsonMode req)"
    by (simp add: requestsGrounding_def)
qed

theorem grounding_excludes_json_mode_witness:
  "generateContentWithUrlContext exampleKey (js ''hi'') [exampleUrl] None = Calls groundedRequest
   \<and> requestsGrounding groundedRequest \<and> \<not> requestsJsonMode groundedRequest
   \<and> getInitialSuggestions exampleKey [exampleUrl] = Calls jsonRequest
   \<and> requestsJsonMode jsonRequest \<and> \<not> requestsGrounding jsonRequest
   \<and> snd (handleSendMessage exampleKey 0 (js ''hi'') (oneGroupState [exampleUrl]))
       = Some (Calls groundedRequest)
   \<and> snd (fetchAndSetInitialSuggestions exampleKey [exampleUrl] initialState)
       = Some (Calls jsonRequest)"
  using
    grounding_excludes_json_mode
      [where k = exampleKey and prompt = "js ''hi''" and urls = "[exampleUrl]" and fc = None
         and req = groundedRequest and now = 0 and query = "js ''hi''"
         and st = "oneGroupState [exampleUrl]"]
    grounding_excludes_json_mode
      [where k = exampleKey and prompt = "js ''hi''" and urls = "[exampleUrl]" and fc = None
         and req = jsonRequest and now = 0 and query = "js ''hi''" and st = initialState]
  by (simp add: example_requests handleSendMessage_def fetchAndSetInitialSuggestions_def
        trim_hi exampleKey_truthy requestsGrounding_def requestsJsonMode_def
        groundedRequest_def jsonRequest_def)

section \<open>The state\<close>

lemma setUrlGroups_sel [simp]:
  "urlGroups (setUrlGroups gs st) = gs"
  "urlGroups_ref (setUrlGroups gs st) = Suc (urlGroups_ref st)"
  "chatMessages (setUrlGroups gs st) = chatMessages st"
  "isLoading (setUrlGroups gs st) = isLoading st"
  "isFetchingSuggestions (setUrlGroups gs st) = isFetchingSuggestions st"
  "localContext (setUrlGroups gs st) = localContext st"
  "activeUrlGroupId (setUrlGroups gs st) = activeUrlGroupId st"
  "initialQuerySuggestions (setUrlGroups gs st) = initialQuerySuggestions st"
  by (simp_all add: setUrlGroups_def)

lemma setActiveUrlGroupId_sel [simp]:
  "urlGroups (setActiveUrlGroupId i st) = urlGroups st"
  "urlGroups_ref (setActiveUrlGroupId i st) = urlGroups_ref st"
  "chatMessages (setActiveUrlGroupId i st) = chatMessages st"
  "isLoading (setActiveUrlGroupId i st) = isLoading st"
  "isFetchingSuggestions (setActiveUrlGroupId i st) = isFetchingSuggestions st"
  "localContext (setActiveUrlGroupId i st) = localContext st"
  "activeUrlGroupId (setActiveUrlGroupId i st) = i"
  "initialQuerySuggestions (setActiveUrlGroupId i st) = initialQuerySuggestions st"
  by (simp_all add: setActiveUrlGroupId_def)

lemma finishSuggestions_sel [simp]:
  "chatMessages (finishSuggestions xs st) = chatMessages st"
  "isLoading (finishSuggestions xs st) = isLoading st"
  "isFetchingSuggestions (finishSuggestions xs st) = False"
  "initialQuerySuggestions (finishSuggestions xs st) = take 4 xs"
  "localContext (finishSuggestions xs st) = localContext st"
  by (simp_all add: finishSuggestions_def)

lemma welcomeEffect_sel [simp]:
  "chatMessages (welcomeEffect k now st) = [welcomeMessage k now st]"
  "localContext (welcomeEffect k now st) = None"
  "urlGroups (welcomeEffect k now st) = urlGroups st"
  "urlGroups_ref (welcomeEffect k now st) = urlGroups_ref st"
  "activeUrlGroupId (welcomeEffect k now st) = activeUrlGroupId st"
  by (simp_all add: welcomeEffect_def)

lemma welcomeMessage_sel [simp]:
  "sender (welcomeMessage k now st) = SYSTEM"
  "msg_text (welcomeMessage k now st) = welcomeMessageText k st"
  "msg_id (welcomeMessage k now st)
     = js ''system-welcome-'' @ activeUrlGroupId st @ js ''-'' @ toString now"
  "timestamp (welcomeMessage k now st) = now"
  by (simp_all add: welcomeMessage_def systemMessage_def)

lemma initialState_sel [simp]:
  "urlGroups initialState = INITIAL_URL_GROUPS"
  "activeUrlGroupId initialState = js ''gemini-overview''"
  by (simp_all add: initialState_def)



lemma contentPromise_textFile:
  "name \<in> {''a.txt'', ''b.md'', ''c.py''} \<Longrightarrow>
   contentPromise exampleReaders (textFile name n) = Some (replicate n 0x61)"
  by (auto simp: contentPromise_def textFile_def exampleReaders_def extension_examples Let_def)

lemma exampleState_eq:
  "exampleState
     = handleFileUpload_settled 1 (textFile ''a.txt'' 5) (Some (replicate 5 0x61))
         (welcomeEffect None 0 initialState)"
  by (simp add: exampleState_def contentPromise_textFile)

lemma exampleState_sel:
  "localContext exampleState
     = Some \<lparr>ctx_type = CtxFile, ctx_name = js ''a.txt'', ctx_content = replicate 5 0x61,
             ctx_count = 1\<rparr>"
  "length (chatMessages exampleState) = 2"
  "urlGroups exampleState = INITIAL_URL_GROUPS"
  "activeUrlGroupId exampleState = js ''gemini-overview''"
  unfolding exampleState_eq
  by (simp_all add: handleFileUpload_settled_def Let_def MAX_CONTEXT_CHARS_def textFile_def)

section \<open>Without an API key nothing is pending\<close>

text \<open>
  Only \<open>handleSendMessage\<close> sets \<open>isLoading\<close> and only the suggestion effect sets
  \<open>isFetchingSuggestions\<close>, each behind a test of the key.
\<close>

lemma step_keeps_idle:
  assumes "\<not> truthy apiKey" and "\<not> isLoading st" and "\<not> isFetchingSuggestions st"
  shows "\<not> isLoading (step apiKey rd e st) \<and> \<not> isFetchingSuggestions (step apiKey rd e st)"
proof (cases e)
  case (WelcomeEffect now)
  with assms show ?thesis by (simp add: welcomeEffect_def)
next
  case SuggestionsEffect
  with assms show ?thesis by (simp add: suggestionsEffect_def)
next
  case (SuggestionsSettled now outcome)
  with assms show ?thesis
    by (simp add: fetchAndSetInitialSuggestions_settled_def
          split: sum.split option.split parsed_suggestions.split)
next
  case (AddUrl url)
  with assms show ?thesis by (simp add: handleAddUrl_def)
next
  case (RemoveUrl url)
  with assms show ?thesis by (simp add: handleRemoveUrl_def)
next
  case (AddGroup now name)
  with assms show ?thesis by (simp add: handleAddGroup_def Let_def)
next
  case (RemoveGroup confirmed groupId)
  with assms show ?thesis by (simp add: handleRemoveGroup_def Let_def split: list.split)
next
  case (SetGroupId groupId)
  with assms show ?thesis by simp
next
  case (FileUpload now f)
  with assms show ?thesis by (simp add: handleFileUpload_def)
next
  case (FileUploadSettled now f)
  with assms show ?thesis by (simp add: handleFileUpload_settled_def Let_def split: option.split)
next
  case (FolderUpload now files)
  with assms show ?thesis by (simp add: handleFolderUpload_def)
next
  case (FolderUploadSettled now files)
  with assms show ?thesis by (simp add: handleFolderUpload_settled_def Let_def)
next
  case (LocalContextRemove now)
  with assms show ?thesis by (simp add: handleLocalContextRemove_def Let_def)
next
  case (SendMessage now query)
  with assms show ?thesis by (simp add: handleSendMessage_def)
next
  case (SendMessageSettled placeholder outcome)
  with assms show ?thesis by (simp add: handleSendMessage_settled_def Let_def)
next
  case (SetSidebarOpen b)
  with assms show ?thesis by simp
next
  case (SetAddGroupModalOpen b)
  with assms show ?thesis by simp
qed

lemma reachable_idle_without_key:
  "reachable apiKey rd st \<Longrightarrow> \<not> truthy apiKey \<Longrightarrow>
   \<not> isLoading st \<and> \<not> isFetchingSuggestions st"
proof (induction rule: reachable.induct)
  case initial
  show ?case by (simp add: initialState_def)
next
  case (step st e)
  then show ?case using step_keeps_idle by blast
qed

lemma reachable_exampleState: "reachable None exampleReaders exampleState"
proof -
  have "reachable None exampleReaders (step None exampleReaders (WelcomeEffect 0) initialState)"
    by (rule reachable.step) (rule reachable.initial)
  then have "reachable None exampleReaders
      (step None exampleReaders (FileUploadSettled 1 (textFile ''a.txt'' 5))
         (step None exampleReaders (WelcomeEffect 0) initialState))"
    by (rule reachable.step)
  then show ?thesis by (simp add: exampleState_def)
qed

text \<open>
  Claim C6. Without an API key (\<open>process.env.API_KEY\<close> undefined or empty),
  \<open>handleSendMessage\<close> never calls the service, whatever the state and the query; and
  in every state the component can reach, sending a query (one that is not blank)
  appends one message to the log: a system message, stamped with the time of the
  call, whose text is the one on the missing key. Nothing else in the state changes.
\<close>

theorem send_without_key:
  "(\<not> truthy apiKey \<longrightarrow> snd (handleSendMessage apiKey now query st) = None)
   \<and> (reachable apiKey rd st \<and> \<not> truthy apiKey \<and> trim query \<noteq> [] \<longrightarrow>
        chatMessages (fst (handleSendMessage apiKey now query st))
          = chatMessages st
            @ [\<lparr>msg_id = js ''error-apikey-'' @ toString now, msg_text = txt_send_no_key,
                sender = SYSTEM, timestamp = now, isLoading_msg = None, urlContext = None\<rparr>]
        \<and> fst (handleSendMessage apiKey now query st)
            = st\<lparr>chatMessages := chatMessages (fst (handleSendMessage apiKey now query st))\<rparr>
        \<and> snd (handleSendMessage apiKey now query st) = None)"
proof (intro conjI impI)
  assume "\<not> truthy apiKey"
  then show "snd (handleSendMessage apiKey now query st) = None"
    by (simp add: handleSendMessage_def)
next
  assume a: "reachable apiKey rd st \<and> \<not> truthy apiKey \<and> trim query \<noteq> []"
  then have "\<not> isLoading st \<and> \<not> isFetchingSuggestions st"
    using reachable_idle_without_key by blast
  with a have r: "handleSendMessage apiKey now query st
          = (appendMessages [systemMessage (js ''error-apikey-'') txt_send_no_key now] st, None)"
    by (simp add: handleSendMessage_def)
  show "chatMessages (fst (handleSendMessage apiKey now query st))
          = chatMessages st
            @ [\<lparr>msg_id = js ''error-apikey-'' @ toString now, msg_text = txt_send_no_key,
                sender = SYSTEM, timestamp = now, isLoading_msg = None, urlContext = None\<rparr>]"
    unfolding r by (simp add: appendMessages_def systemMessage_def)
  show "fst (handleSendMessage apiKey now query st)
            = st\<lparr>chatMessages := chatMessages (fst (handleSendMessage apiKey now query st))\<rparr>"
    unfolding r by (simp add: appendMessages_def)
  show "snd (handleSendMessage apiKey now query st) = None"
    unfolding r by simp
qed

text \<open>
  After the upload of a file the log has two messages; a query sent without a key
  makes them three, the last one the message on the key, and keeps the file.
\<close>

theorem send_without_key_witness:
  "reachable None exampleReaders exampleState \<and> \<not> truthy None \<and> trim (js ''hi'') \<noteq> []
   \<and> chatMessages (fst (handleSendMessage None 3 (js ''hi'') exampleState))
       = chatMessages exampleState
         @ [\<lparr>msg_id = js ''error-apikey-'' @ toString 3, msg_text = txt_send_no_key,
             sender = SYSTEM, timestamp = 3, isLoading_msg = None, urlContext = None\<rparr>]
   \<and> length (chatMessages (fst (handleSendMessage None 3 (js ''hi'') exampleState))) = 3
   \<and> localContext (fst (handleSendMessage None 3 (js ''hi'') exampleState))
       = localContext exampleState
   \<and> snd (handleSendMessage None 3 (js ''hi'') exampleState) = None"
proof -
  note w = send_without_key [of None 3 "js ''hi''" exampleState exampleReaders]
  have h: "reachable None exampleReaders exampleState \<and> \<not> truthy None \<and> trim (js ''hi'') \<noteq> []"
    by (simp add: reachable_exampleState trim_hi truthy_def)
  from w h have c: "chatMessages (fst (handleSendMessage None 3 (js ''hi'') exampleState))
       = chatMessages exampleState
         @ [\<lparr>msg_id = js ''error-apikey-'' @ toString 3, msg_text = txt_send_no_key,
             sender = SYSTEM, timestamp = 3, isLoading_msg = None, urlContext = None\<rparr>]"
    by blast
  from w h have f: "fst (handleSendMessage None 3 (js ''hi'') exampleState)
       = exampleState\<lparr>chatMessages :=
           chatMessages (fst (handleSendMessage None 3 (js ''hi'') exampleState))\<rparr>"
    by blast
  from w h have s: "snd (handleSendMessage None 3 (js ''hi'') exampleState) = None"
    by blast
  have l: "length (chatMessages (fst (handleSendMessage None 3 (js ''hi'') exampleState))) = 3"
    unfolding c by (simp add: exampleState_sel)
  have "localContext (fst (handleSendMessage None 3 (js ''hi'') exampleState))
       = localContext exampleState"
    by (subst f) simp
  with h c l s show ?thesis by blast
qed
section \<open>Groups and URLs\<close>

text \<open>
  Claim C8. After a switch of the active group the welcome effect runs: whenever the
  active group id after a handler differs from the one at the previous render, the
  log is exactly one system message, the welcome message for the new state stamped
  with the current time, and no local context is attached.
\<close>

theorem group_switch_resets_log_and_context:
  "activeUrlGroupId st \<noteq> activeUrlGroupId prev \<Longrightarrow>
   chatMessages (useEffect_welcome apiKey now prev st) = [welcomeMessage apiKey now st]
   \<and> sender (welcomeMessage apiKey now st) = SYSTEM
   \<and> msg_text (welcomeMessage apiKey now st) = welcomeMessageText apiKey st
   \<and> timestamp (welcomeMessage apiKey now st) = now
   \<and> localContext (useEffect_welcome apiKey now prev st) = None"
  by (simp add: useEffect_welcome_def)

theorem group_switch_resets_log_and_context_witness:
  "activeUrlGroupId (setActiveUrlGroupId (js ''model-capabilities'') exampleState)
     \<noteq> activeUrlGroupId exampleState
   \<and> chatMessages
        (useEffect_welcome None 2 exampleState
           (setActiveUrlGroupId (js ''model-capabilities'') exampleState))
       = [welcomeMessage None 2 (setActiveUrlGroupId (js ''model-capabilities'') exampleState)]
   \<and> localContext
        (useEffect_welcome None 2 exampleState
           (setActiveUrlGroupId (js ''model-capabilities'') exampleState)) = None
   \<and> localContext exampleState \<noteq> None"
  using group_switch_resets_log_and_context
    [of "setActiveUrlGroupId (js ''model-capabilities'') exampleState" exampleState None 2]
  by (simp add: exampleState_sel)

lemma filter_not_Nil_if_distinct:
  assumes "distinct (map f xs)" and "1 < length xs"
  shows "filter (\<lambda>x. f x \<noteq> a) xs \<noteq> []"
proof -
  from assms(2) obtain x y zs where xs: "xs = x # y # zs"
    by (cases xs; cases "tl xs") auto
  with assms(1) have "f x \<noteq> f y" by auto
  then have "f x \<noteq> a \<or> f y \<noteq> a" by auto
  then show ?thesis using xs by auto
qed






lemma reachable_twinGroupsState: "reachable apiKey rd twinGroupsState"
proof -
  have "reachable apiKey rd (step apiKey rd (AddGroup 5 (js ''A'')) initialState)"
    by (rule reachable.step) (rule reachable.initial)
  then have "reachable apiKey rd
      (step apiKey rd (AddGroup 5 (js ''B'')) (step apiKey rd (AddGroup 5 (js ''A'')) initialState))"
    by (rule reachable.step)
  then show ?thesis by (simp add: twinGroupsState_def)
qed





text \<open>
  Groups with distinct ids always leave one behind. When every group has the id
  removed, none is left: the empty list is stored and reading \<open>newGroups[0].id\<close>
  throws, the active group id staying as it was.
\<close>

lemma remove_group_distinct_ids:
  "1 < length (urlGroups st) \<Longrightarrow> distinct (map group_id (urlGroups st)) \<Longrightarrow>
   filter (\<lambda>g. group_id g \<noteq> groupId) (urlGroups st) \<noteq> []"
  using filter_not_Nil_if_distinct [of group_id "urlGroups st" groupId] by blast

lemma remove_group_none_left:
  "1 < length (urlGroups st) \<Longrightarrow> activeUrlGroupId st = groupId \<Longrightarrow>
   filter (\<lambda>g. group_id g \<noteq> groupId) (urlGroups st) = [] \<Longrightarrow>
   handleRemoveGroup True groupId st = (setUrlGroups [] st, ThrewTypeError)"
  by (simp add: handleRemoveGroup_def Let_def)

lemma handleAddUrl_sel [simp]:
  "activeUrlGroupId (handleAddUrl url st) = activeUrlGroupId st"
  "chatMessages (handleAddUrl url st) = chatMessages st"
  "localContext (handleAddUrl url st) = localContext st"
  "urlGroups_ref (handleAddUrl url st) = Suc (urlGroups_ref st)"
  "length (urlGroups (handleAddUrl url st)) = length (urlGroups st)"
  by (simp_all add: handleAddUrl_def)

lemma handleRemoveUrl_sel [simp]:
  "activeUrlGroupId (handleRemoveUrl url st) = activeUrlGroupId st"
  "chatMessages (handleRemoveUrl url st) = chatMessages st"
  "localContext (handleRemoveUrl url st) = localContext st"
  "urlGroups_ref (handleRemoveUrl url st) = Suc (urlGroups_ref st)"
  "length (urlGroups (handleRemoveUrl url st)) = length (urlGroups st)"
  by (simp_all add: handleRemoveUrl_def)







section \<open>JSON.parse never reaches its bound\<close>

lemma length_skipWs: "length (skipWs s) \<le> length s"
  by (simp add: skipWs_def length_dropWhile_le)

lemma skipWs_Cons_length: "skipWs s = d # r \<Longrightarrow> length r < length s"
  using length_skipWs [of s] by simp

lemma consTo_Some: "consTo x p = Some (ys, r) \<Longrightarrow> \<exists>xs. p = Some (xs, r)"
  by (auto simp: consTo_def)

lemma parseChars_shorter: "parseChars s = Some (k, r) \<Longrightarrow> length r < length s"
proof (induction s arbitrary: k rule: length_induct)
  case (1 s)
  have IH: "length r < length t" if "length t < length s" "parseChars t = Some (k', r)" for t k'
    using 1 that by blast
  show ?case
  proof (cases s)
    case Nil
    with "1.prems" show ?thesis by simp
  next
    case (Cons c cs)
    have "r = cs \<or> (\<exists>t k'. length t < length s \<and> parseChars t = Some (k', r))"
      using "1.prems" unfolding Cons
      by (fastforce split: if_splits list.splits option.splits dest!: consTo_Some)
    then show ?thesis
    proof
      assume "r = cs"
      with Cons show ?thesis by simp
    next
      assume "\<exists>t k'. length t < length s \<and> parseChars t = Some (k', r)"
      then obtain t k' where rec: "length t < length s" "parseChars t = Some (k', r)" by blast
      with IH [OF rec] show ?thesis by simp
    qed
  qed
qed

lemma length_dropWhile_less: "takeWhile P s \<noteq> [] \<Longrightarrow> length (dropWhile P s) < length s"
  by (cases s) (auto simp: le_imp_less_Suc length_dropWhile_le split: if_splits)

lemma parseInt_shorter: "parseInt s = Some (i, r) \<Longrightarrow> length r < length s"
  by (cases s) (auto simp: parseInt_def le_imp_less_Suc length_dropWhile_le split: if_splits)

lemma parseFrac_shorter: "parseFrac s = Some (f, r) \<Longrightarrow> length r \<le> length s"
  by (cases s) (auto simp: parseFrac_def le_SucI length_dropWhile_le split: if_splits)

lemma parseExp_shorter: "parseExp s = Some (e, r) \<Longrightarrow> length r \<le> length s"
proof (cases s)
  case Nil
  then show "parseExp s = Some (e, r) \<Longrightarrow> length r \<le> length s" by (simp add: parseExp_def)
next
  case (Cons c cs)
  assume "parseExp s = Some (e, r)"
  then consider "r = s" | ds where "r = dropWhile isDigit ds" "length ds \<le> length cs"
    unfolding Cons parseExp_def Let_def by (auto split: if_splits)
  then show "length r \<le> length s"
  proof cases
    case 1
    then show ?thesis by simp
  next
    case 2
    have "length r \<le> length ds" using 2(1) by (simp add: length_dropWhile_le)
    with 2(2) Cons show ?thesis by simp
  qed
qed

lemma parseNumber_shorter: "parseNumber s = Some (l, r) \<Longrightarrow> length r < length s"
proof -
  assume a: "parseNumber s = Some (l, r)"
  define m where "m = (case s of [] \<Rightarrow> [] | c # _ \<Rightarrow> if c = 0x2D then [c] else [])"
  from a obtain i r1 f r2 e where
    i: "parseInt (drop (length m) s) = Some (i, r1)"
    and f: "parseFrac r1 = Some (f, r2)"
    and e: "parseExp r2 = Some (e, r)"
    unfolding parseNumber_def Let_def m_def [symmetric]
    by (auto split: option.splits)
  have "length r \<le> length r2" using parseExp_shorter [OF e] .
  also have "\<dots> \<le> length r1" using parseFrac_shorter [OF f] .
  also have "\<dots> < length (drop (length m) s)" using parseInt_shorter [OF i] .
  also have "\<dots> \<le> length s" by simp
  finally show ?thesis .
qed

lemma literal_shorter: "literal w v s = Some (x, r) \<Longrightarrow> w \<noteq> [] \<Longrightarrow> length r < length s"
proof -
  assume a: "literal w v s = Some (x, r)" and w: "w \<noteq> []"
  then have t: "take (length w) s = w" and r: "r = drop (length w) s"
    by (auto simp: literal_def split: if_splits)
  from t w have "s \<noteq> []" by auto
  with r w show ?thesis by simp
qed

lemma lexeme_Parsed: "lexeme p = Parsed v r \<longleftrightarrow> p = Some (v, r)"
  by (auto simp: lexeme_def split: option.splits)

lemma lexeme_not_OutOfFuel [simp]: "lexeme p \<noteq> OutOfFuel"
  by (auto simp: lexeme_def split: option.splits)

lemma map_parsed_Parsed: "map_parsed f p = Parsed v r \<Longrightarrow> \<exists>x. p = Parsed x r"
  by (cases p) auto

lemma map_parsed_OutOfFuel [simp]: "map_parsed f p = OutOfFuel \<longleftrightarrow> p = OutOfFuel"
  by (cases p) auto

lemma parseValue_Suc_shorter:
  assumes elems: "\<And>t vs r. parseElements n t = Parsed vs r \<Longrightarrow> length r < length t"
    and membs: "\<And>t ms r. parseMembers n t = Parsed ms r \<Longrightarrow> length r < length t"
    and p: "parseValue (Suc n) s = Parsed v r"
  shows "length r < length s"
proof (cases s)
  case Nil
  with p show ?thesis by simp
next
  case (Cons c cs)
  have ws: "length (skipWs cs) \<le> length cs" by (rule length_skipWs)
  consider (obj) "c = 0x7B" | (arr) "c \<noteq> 0x7B" "c = 0x5B" | (lex) "c \<noteq> 0x7B" "c \<noteq> 0x5B"
    by blast
  then show ?thesis
  proof cases
    case obj
    with p Cons obtain d r0 where d: "skipWs cs = d # r0"
      by (cases "skipWs cs") auto
    show ?thesis
    proof (cases "d = 0x7D")
      case True
      with p Cons obj d have "r = r0" by simp
      with d ws Cons show ?thesis by simp
    next
      case False
      with p Cons obj d obtain x where "parseMembers n (d # r0) = Parsed x r"
        by (auto dest: map_parsed_Parsed)
      from membs [OF this] d ws Cons show ?thesis by simp
    qed
  next
    case arr
    with p Cons obtain d r0 where d: "skipWs cs = d # r0"
      by (cases "skipWs cs") auto
    show ?thesis
    proof (cases "d = 0x5D")
      case True
      with p Cons arr d have "r = r0" by simp
      with d ws Cons show ?thesis by simp
    next
      case False
      with p Cons arr d obtain x where "parseElements n (d # r0) = Parsed x r"
        by (auto dest: map_parsed_Parsed)
      from elems [OF this] d ws Cons show ?thesis by simp
    qed
  next
    case lex
    with p Cons have
      "(\<exists>k. parseChars cs = Some (k, r))
       \<or> (\<exists>w x. w \<noteq> [] \<and> literal w x s = Some (v, r))
       \<or> (\<exists>l. parseNumber s = Some (l, r))"
      by (auto simp: lexeme_Parsed js_def split: if_splits)
    then show ?thesis
      using parseChars_shorter literal_shorter parseNumber_shorter Cons
      by (metis length_Cons less_Suc_eq)
  qed
qed

lemma parseElements_Suc_shorter:
  assumes val: "\<And>t v r. parseValue n t = Parsed v r \<Longrightarrow> length r < length t"
    and elems: "\<And>t vs r. parseElements n t = Parsed vs r \<Longrightarrow> length r < length t"
    and p: "parseElements (Suc n) s = Parsed vs r"
  shows "length r < length s"
proof -
  from p obtain v r1 where v: "parseValue n s = Parsed v r1"
    by (cases "parseValue n s") auto
  from p v obtain d r2 where d: "skipWs r1 = d # r2"
    by (cases "skipWs r1") auto
  have l1: "length r1 < length s" using val [OF v] .
  have l2: "length r2 < length r1" using skipWs_Cons_length [OF d] .
  show ?thesis
  proof (cases "d = 0x2C")
    case True
    with p v d obtain x where "parseElements n (skipWs r2) = Parsed x r"
      by (auto dest: map_parsed_Parsed)
    from elems [OF this] length_skipWs [of r2] l1 l2 show ?thesis by simp
  next
    case False
    with p v d have "r = r2" by (auto split: if_splits)
    with l1 l2 show ?thesis by simp
  qed
qed

lemma parseMembers_Suc_shorter:
  assumes val: "\<And>t v r. parseValue n t = Parsed v r \<Longrightarrow> length r < length t"
    and membs: "\<And>t ms r. parseMembers n t = Parsed ms r \<Longrightarrow> length r < length t"
    and p: "parseMembers (Suc n) s = Parsed ms r"
  shows "length r < length s"
proof (cases s)
  case Nil
  with p show ?thesis by simp
next
  case (Cons q cs)
  with p have q: "q = 0x22" by (auto split: if_splits)
  from p Cons q obtain k r0 where k: "parseChars cs = Some (k, r0)"
    by (cases "parseChars cs") auto
  from p Cons q k obtain colon r1 where c: "skipWs r0 = colon # r1"
    by (cases "skipWs r0") auto
  from p Cons q k c have colon: "colon = 0x3A" by (auto split: if_splits)
  from p Cons q k c colon obtain v r2 where v: "parseValue n (skipWs r1) = Parsed v r2"
    by (cases "parseValue n (skipWs r1)") auto
  from p Cons q k c colon v obtain d r3 where d: "skipWs r2 = d # r3"
    by (cases "skipWs r2") auto
  have "length r0 < length cs" using parseChars_shorter [OF k] .
  moreover have "length r1 < length r0" using skipWs_Cons_length [OF c] .
  moreover have "length r2 < length (skipWs r1)" using val [OF v] .
  moreover have "length (skipWs r1) \<le> length r1" by (rule length_skipWs)
  moreover have "length r3 < length r2" using skipWs_Cons_length [OF d] .
  ultimately have l3: "length r3 < length s" using Cons by simp
  show ?thesis
  proof (cases "d = 0x2C")
    case True
    with p Cons q k c colon v d obtain x where "parseMembers n (skipWs r3) = Parsed x r"
      by (auto dest: map_parsed_Parsed)
    from membs [OF this] length_skipWs [of r3] l3 show ?thesis by simp
  next
    case False
    with p Cons q k c colon v d have "r = r3" by (auto split: if_splits)
    with l3 show ?thesis by simp
  qed
qed

lemma parse_shorter_all:
  "(\<forall>s v r. parseValue n s = Parsed v r \<longrightarrow> length r < length s)
   \<and> (\<forall>s vs r. parseElements n s = Parsed vs r \<longrightarrow> length r < length s)
   \<and> (\<forall>s ms r. parseMembers n s = Parsed ms r \<longrightarrow> length r < length s)"
proof (induction n)
  case 0
  show ?case by simp
next
  case (Suc n)
  show ?case
    using Suc parseValue_Suc_shorter [of n] parseElements_Suc_shorter [of n]
      parseMembers_Suc_shorter [of n]
    by blast
qed

lemma parseValue_shorter: "parseValue n s = Parsed v r \<Longrightarrow> length r < length s"
  using parse_shorter_all by blast

lemma parseValue_Suc_fuel:
  assumes elems: "\<And>t. 2 * length t + 1 < n \<Longrightarrow> parseElements n t \<noteq> OutOfFuel"
    and membs: "\<And>t. 2 * length t + 1 < n \<Longrightarrow> parseMembers n t \<noteq> OutOfFuel"
    and n: "2 * length s < Suc n"
  shows "parseValue (Suc n) s \<noteq> OutOfFuel"
proof (cases s)
  case Nil
  then show ?thesis by simp
next
  case (Cons c cs)
  have inner: "2 * length t + 1 < n" if "skipWs cs = t" for t
    using that length_skipWs [of cs] n Cons by auto
  show ?thesis
    unfolding Cons using elems [OF inner] membs [OF inner]
    by (auto split: list.splits)
qed

lemma parseElements_Suc_fuel:
  assumes val: "\<And>t. 2 * length t < n \<Longrightarrow> parseValue n t \<noteq> OutOfFuel"
    and elems: "\<And>t. 2 * length t + 1 < n \<Longrightarrow> parseElements n t \<noteq> OutOfFuel"
    and n: "2 * length s + 1 < Suc n"
  shows "parseElements (Suc n) s \<noteq> OutOfFuel"
proof (cases "parseValue n s")
  case OutOfFuel
  with val [of s] n show ?thesis by simp
next
  case SyntaxError
  then show ?thesis by simp
next
  case (Parsed v r1)
  have l1: "length r1 < length s" using parseValue_shorter [OF Parsed] .
  show ?thesis
  proof (cases "skipWs r1")
    case Nil
    with Parsed show ?thesis by simp
  next
    case (Cons d r2)
    have "length (skipWs r2) \<le> length r2" by (rule length_skipWs)
    moreover have "length r2 < length r1" using skipWs_Cons_length [OF Cons] .
    ultimately have "2 * length (skipWs r2) + 1 < n" using l1 n by simp
    from elems [OF this] Parsed Cons show ?thesis by simp
  qed
qed

lemma parseMembers_Suc_fuel:
  assumes val: "\<And>t. 2 * length t < n \<Longrightarrow> parseValue n t \<noteq> OutOfFuel"
    and membs: "\<And>t. 2 * length t + 1 < n \<Longrightarrow> parseMembers n t \<noteq> OutOfFuel"
    and n: "2 * length s + 1 < Suc n"
  shows "parseMembers (Suc n) s \<noteq> OutOfFuel"
proof (cases s)
  case Nil
  then show ?thesis by simp
next
  case (Cons q cs)
  show ?thesis
  proof (cases "parseChars cs")
    case None
    with Cons show ?thesis by simp
  next
    case (Some kr)
    obtain k r0 where kr: "kr = (k, r0)" by (cases kr)
    have l0: "length r0 < length cs" using parseChars_shorter Some kr by blast
    show ?thesis
    proof (cases "skipWs r0")
      case Nil
      with Cons Some kr show ?thesis by simp
    next
      case c: (Cons colon r1)
      have l1: "length (skipWs r1) < length r0"
        using skipWs_Cons_length [OF c] length_skipWs [of r1] by simp
      show ?thesis
      proof (cases "parseValue n (skipWs r1)")
        case OutOfFuel
        with val [of "skipWs r1"] l0 l1 n Cons show ?thesis by simp
      next
        case SyntaxError
        with Cons Some kr c show ?thesis by simp
      next
        case (Parsed v r2)
        have l2: "length r2 < length (skipWs r1)" using parseValue_shorter [OF Parsed] .
        show ?thesis
        proof (cases "skipWs r2")
          case Nil
          with Cons Some kr c Parsed show ?thesis by simp
        next
          case d: (Cons d r3)
          have "length (skipWs r3) \<le> length r3" by (rule length_skipWs)
          moreover have "length r3 < length r2" using skipWs_Cons_length [OF d] .
          ultimately have "2 * length (skipWs r3) + 1 < n"
            using l0 l1 l2 n Cons by simp
          from membs [OF this] Cons Some kr c Parsed d show ?thesis by simp
        qed
      qed
    qed
  qed
qed

lemma fuel_all:
  "(\<forall>s. 2 * length s < n \<longrightarrow> parseValue n s \<noteq> OutOfFuel)
   \<and> (\<forall>s. 2 * length s + 1 < n \<longrightarrow> parseElements n s \<noteq> OutOfFuel)
   \<and> (\<forall>s. 2 * length s + 1 < n \<longrightarrow> parseMembers n s \<noteq> OutOfFuel)"
proof (induction n)
  case 0
  show ?case by simp
next
  case (Suc n)
  show ?case
    using Suc parseValue_Suc_fuel [of n] parseElements_Suc_fuel [of n]
      parseMembers_Suc_fuel [of n]
    by blast
qed

text \<open>The bound that \<open>JSON_parse\<close> passes is never reached.\<close>

lemma JSON_parse_fuel: "parseValue (2 * length s + 2) (skipWs s) \<noteq> OutOfFuel"
proof -
  have "2 * length (skipWs s) < 2 * length s + 2"
    using length_skipWs [of s] by simp
  then show ?thesis using fuel_all by blast
qed

section \<open>The code fence\<close>

text \<open>The equations of the matcher, item by item.\<close>

lemma rmatch_once:
  "rmatch (once P # items) s g
     = (case s of [] \<Rightarrow> None | c # cs \<Rightarrow> if P c then rmatch items cs g else None)"
  unfolding once_def by (cases s) simp_all

lemma rmatch_star_Nil: "rmatch (star P # items) [] g = rmatch items [] g"
  unfolding star_def by simp

lemma rmatch_star_Cons:
  "rmatch (star P # items) (c # cs) g
     = (if P c then
          (case rmatch (star P # items) cs g of
             Some r \<Rightarrow> Some r
           | None \<Rightarrow> rmatch items (c # cs) g)
        else rmatch items (c # cs) g)"
  unfolding star_def by simp

lemma rmatch_opt_Nil: "rmatch (opt P # items) [] g = rmatch items [] g"
  unfolding opt_def by simp

lemma rmatch_opt_Cons:
  "rmatch (opt P # items) (c # cs) g
     = (if P c then
          (case rmatch items cs g of
             Some r \<Rightarrow> Some r
           | None \<Rightarrow> rmatch items (c # cs) g)
        else rmatch items (c # cs) g)"
  unfolding opt_def by simp

lemma rmatch_lazyGroup_Cons:
  "rmatch (lazyGroup # items) (c # cs) g
     = (case rmatch items (c # cs) g of
          Some r \<Rightarrow> Some r
        | None \<Rightarrow> rmatch (lazyGroup # items) cs (g @ [c]))"
  unfolding lazyGroup_def by simp

declare rmatch.simps(2,3) [simp del]

lemma star_consumes:
  assumes "list_all P w" and "rmatch (star P # items) s g = Some r"
  shows "rmatch (star P # items) (w @ s) g = Some r"
  using assms(1) by (induction w) (simp_all add: rmatch_star_Cons assms(2))

lemma star_stops:
  "\<not> P c \<Longrightarrow> rmatch (star P # items) (c # cs) g = rmatch items (c # cs) g"
  by (simp add: rmatch_star_Cons)

lemma opt_skips:
  "\<not> P c \<Longrightarrow> rmatch (opt P # items) (c # cs) g = rmatch items (c # cs) g"
  by (simp add: rmatch_opt_Cons)

lemma backtick_not_space: "\<not> isWhiteSpace 0x60"
  by (simp add: isWhiteSpace_def)

lemma newline_space: "isWhiteSpace 0x0A"
  by (simp add: isWhiteSpace_def)

lemma space_not_word: "isWhiteSpace c \<Longrightarrow> \<not> isWordChar c"
  unfolding isWhiteSpace_def isWordChar_def by (auto simp: word_le_nat_alt)

text \<open>The closing fence matches the three backticks and nothing else.\<close>

lemma rmatch_closing:
  "rmatch [backtick, backtick, backtick] s g = (if s = [0x60, 0x60, 0x60] then Some g else None)"
  by (auto simp: backtick_def rmatch_once split: list.splits)

text \<open>
  What the end of the pattern matches, from its last \<open>\s*\<close> or from the \<open>\n?\<close> before
  it, is white space before the three backticks.
\<close>

lemma spaces_closing_sound:
  "rmatch [spaces, backtick, backtick, backtick] s g = Some r \<Longrightarrow>
   r = g \<and> (\<exists>w. list_all isWhiteSpace w \<and> s = w @ [0x60, 0x60, 0x60])"
proof (induction s)
  case Nil
  then show ?case by (simp add: spaces_def rmatch_star_Nil rmatch_closing)
next
  case (Cons c cs)
  show ?case
  proof (cases "isWhiteSpace c \<and> rmatch [spaces, backtick, backtick, backtick] cs g \<noteq> None")
    case True
    then obtain r' where r': "rmatch [spaces, backtick, backtick, backtick] cs g = Some r'" by auto
    with Cons.prems True have "r' = r"
      by (simp add: spaces_def rmatch_star_Cons)
    with Cons.IH r' obtain w where "r = g" "list_all isWhiteSpace w" "cs = w @ [0x60, 0x60, 0x60]"
      by auto
    with True show ?thesis by (intro conjI exI [of _ "c # w"]) simp_all
  next
    case False
    with Cons.prems have "rmatch [backtick, backtick, backtick] (c # cs) g = Some r"
      by (auto simp: spaces_def rmatch_star_Cons
            split: if_splits option.splits)
    then show ?thesis
      by (auto simp: rmatch_closing split: if_splits intro: exI [of _ "[]"])
  qed
qed

lemma spaces_closing_complete:
  "list_all isWhiteSpace w \<Longrightarrow>
   rmatch [spaces, backtick, backtick, backtick] (w @ [0x60, 0x60, 0x60]) g = Some g"
  by (induction w)
    (simp_all add: spaces_def rmatch_star_Cons rmatch_closing backtick_not_space)

lemma fenceTail_sound:
  assumes "rmatch [newline, spaces, backtick, backtick, backtick] s g = Some r"
  shows "r = g \<and> (\<exists>w. list_all isWhiteSpace w \<and> s = w @ [0x60, 0x60, 0x60])"
proof (cases s)
  case Nil
  with assms show ?thesis
    by (simp add: newline_def spaces_def rmatch_opt_Nil rmatch_star_Nil rmatch_closing)
next
  case (Cons c cs)
  show ?thesis
  proof (cases "c = 0x0A \<and> rmatch [spaces, backtick, backtick, backtick] cs g \<noteq> None")
    case True
    then obtain r' where r': "rmatch [spaces, backtick, backtick, backtick] cs g = Some r'" by auto
    with assms Cons True have "r' = r"
      by (simp add: newline_def rmatch_opt_Cons)
    with spaces_closing_sound [OF r'] obtain w
      where "r = g" "list_all isWhiteSpace w" "cs = w @ [0x60, 0x60, 0x60]" by auto
    with True Cons show ?thesis
      by (intro conjI exI [of _ "c # w"]) (simp_all add: newline_space)
  next
    case False
    with assms Cons have "rmatch [spaces, backtick, backtick, backtick] s g = Some r"
      by (auto simp: newline_def rmatch_opt_Cons
            split: if_splits option.splits)
    then show ?thesis by (rule spaces_closing_sound)
  qed
qed

lemma fenceTail_complete:
  assumes "list_all isWhiteSpace w"
  shows "rmatch [newline, spaces, backtick, backtick, backtick] (w @ [0x60, 0x60, 0x60]) g = Some g"
proof (cases w)
  case Nil
  have "rmatch [spaces, backtick, backtick, backtick] ([] @ [0x60, 0x60, 0x60]) g = Some g"
    by (rule spaces_closing_complete) simp
  with Nil show ?thesis
    by (simp add: newline_def rmatch_opt_Cons)
next
  case (Cons c w')
  from assms Cons
  have "rmatch [spaces, backtick, backtick, backtick] (w' @ [0x60, 0x60, 0x60]) g = Some g"
    by (intro spaces_closing_complete) simp
  moreover
  have "rmatch [spaces, backtick, backtick, backtick] (w @ [0x60, 0x60, 0x60]) g = Some g"
    using assms by (rule spaces_closing_complete)
  ultimately show ?thesis using Cons
    by (simp add: newline_def rmatch_opt_Cons)
qed

text \<open>
  The lazy group takes the text up to the first place from which the rest of the
  pattern matches: all of a body that does not end in white space.
\<close>

lemma lazyGroup_captures:
  assumes "list_all isWhiteSpace w" and "b = [] \<or> \<not> isWhiteSpace (last b)"
  shows "rmatch [lazyGroup, newline, spaces, backtick, backtick, backtick]
           (b @ w @ [0x60, 0x60, 0x60]) g = Some (g @ b)"
  using assms(2)
proof (induction b arbitrary: g)
  case Nil
  have "rmatch [newline, spaces, backtick, backtick, backtick] (w @ [0x60, 0x60, 0x60]) g = Some g"
    using assms(1) by (rule fenceTail_complete)
  then show ?case
    by (cases w) (simp_all add: rmatch_lazyGroup_Cons)
next
  case (Cons c b)
  have "rmatch [newline, spaces, backtick, backtick, backtick]
          ((c # b) @ w @ [0x60, 0x60, 0x60]) g = None"
  proof (rule ccontr)
    assume "rmatch [newline, spaces, backtick, backtick, backtick]
              ((c # b) @ w @ [0x60, 0x60, 0x60]) g \<noteq> None"
    then obtain r where "rmatch [newline, spaces, backtick, backtick, backtick]
              ((c # b) @ w @ [0x60, 0x60, 0x60]) g = Some r" by auto
    from fenceTail_sound [OF this] obtain v
      where v: "list_all isWhiteSpace v" "(c # b) @ w @ [0x60, 0x60, 0x60] = v @ [0x60, 0x60, 0x60]"
      by blast
    then have "v = (c # b) @ w" by simp
    with v(1) have "list_all isWhiteSpace (c # b)" by simp
    then have "isWhiteSpace (last (c # b))"
      by (metis last_in_set list.distinct(1) list_all_iff)
    with Cons.prems show False by simp
  qed
  moreover have "b = [] \<or> \<not> isWhiteSpace (last b)"
    using Cons.prems by (auto split: if_splits)
  ultimately show ?case
    using Cons.IH [of "g @ [c]"] by (simp add: rmatch_lazyGroup_Cons)
qed

text \<open>
  A fenced text: the opening fence, a tag of word characters, white space, a body
  that neither starts nor ends with white space, white space, the closing fence.
  The match captures the body.
\<close>

lemma fenceRegex_fenced:
  assumes tag: "list_all isWordChar tag"
    and sp: "sp \<noteq> []" "list_all isWhiteSpace sp"
    and body: "body \<noteq> []" "\<not> isWhiteSpace (hd body)" "\<not> isWhiteSpace (last body)"
    and sp': "list_all isWhiteSpace sp'"
  shows "rmatch fenceRegex
           ([0x60, 0x60, 0x60] @ tag @ sp @ body @ sp' @ [0x60, 0x60, 0x60]) [] = Some body"
proof -
  let ?rest = "[lazyGroup, newline, spaces, backtick, backtick, backtick]"
  let ?end = "sp' @ [0x60, 0x60, 0x60]"
  obtain c cs where b: "body = c # cs" using body(1) by (cases body) auto
  obtain d ds where s: "sp = d # ds" using sp(1) by (cases sp) auto
  have c: "\<not> isWhiteSpace c" "c \<noteq> 0x0A"
    using body(2) b newline_space by auto
  have d: "\<not> isWordChar d"
    using sp(2) s space_not_word by simp
  have "rmatch ?rest (body @ ?end) [] = Some ([] @ body)"
    using sp' body(3) by (intro lazyGroup_captures) simp_all
  then have "rmatch (newline # ?rest) (body @ ?end) [] = Some body"
    using c(2) by (simp add: b newline_def opt_skips)
  then have "rmatch (star isWhiteSpace # newline # ?rest) (body @ ?end) [] = Some body"
    using c(1) by (simp add: b star_stops)
  then have "rmatch (star isWhiteSpace # newline # ?rest) (sp @ body @ ?end) [] = Some body"
    using sp(2) by (rule star_consumes [rotated])
  then have "rmatch (star isWordChar # star isWhiteSpace # newline # ?rest) (sp @ body @ ?end) []
      = Some body"
    using d by (simp add: s star_stops)
  then have "rmatch (star isWordChar # star isWhiteSpace # newline # ?rest)
      (tag @ sp @ body @ ?end) [] = Some body"
    using tag by (rule star_consumes [rotated])
  then show ?thesis
    by (simp add: fenceRegex_def rmatch_once wordChars_def spaces_def backtick_def)
qed

text \<open>A text that does not start with a backtick matches nothing.\<close>

lemma fenceRegex_plain:
  "s = [] \<or> hd s \<noteq> 0x60 \<Longrightarrow> rmatch fenceRegex s [] = None"
  by (cases s) (auto simp: fenceRegex_def backtick_def rmatch_once)

lemma unfence_fenced:
  assumes "trim t = [0x60, 0x60, 0x60] @ tag @ sp @ body @ sp' @ [0x60, 0x60, 0x60]"
    and "list_all isWordChar tag"
    and "sp \<noteq> []" "list_all isWhiteSpace sp"
    and "body \<noteq> []" "\<not> isWhiteSpace (hd body)" "\<not> isWhiteSpace (last body)"
    and "list_all isWhiteSpace sp'"
  shows "unfence t = body"
proof -
  have "rmatch fenceRegex (trim t) [] = Some body"
    unfolding assms(1) using assms(2-) by (rule fenceRegex_fenced)
  moreover have "trim body = body"
    using assms(5-7) by (rule trim_id)
  ultimately show ?thesis
    using assms(5) by (simp add: unfence_def)
qed

lemma unfence_plain:
  "trim t = [] \<or> hd (trim t) \<noteq> 0x60 \<Longrightarrow> unfence t = trim t"
  by (simp add: unfence_def fenceRegex_plain)


lemma fence_literal: "js ''```'' = [0x60, 0x60, 0x60]"
  by (simp add: js_def)

lemma example_fence:
  "trim fencedText
     = js ''```'' @ js ''json'' @ [0x0A] @ js ''{\"suggestions\":[\"a\",\"b\"]}'' @ [0x0A] @ js ''```''"
  "list_all isWordChar (js ''json'')"
  "\<not> isWhiteSpace (hd (js ''{\"suggestions\":[\"a\",\"b\"]}''))"
  "\<not> isWhiteSpace (last (js ''{\"suggestions\":[\"a\",\"b\"]}''))"
proof -
  have "trim fencedText = fencedText"
    by (rule trim_id) (simp_all add: fencedText_def js_def isWhiteSpace_def)
  then show "trim fencedText
     = js ''```'' @ js ''json'' @ [0x0A] @ js ''{\"suggestions\":[\"a\",\"b\"]}'' @ [0x0A] @ js ''```''"
    by (simp add: fencedText_def js_def)
  show "list_all isWordChar (js ''json'')"
    by (simp add: js_def isWordChar_def)
  show "\<not> isWhiteSpace (hd (js ''{\"suggestions\":[\"a\",\"b\"]}''))"
    by (simp add: js_def isWhiteSpace_def)
  show "\<not> isWhiteSpace (last (js ''{\"suggestions\":[\"a\",\"b\"]}''))"
    by (simp add: js_def isWhiteSpace_def)
qed

lemma example_plain:
  "trim bareArrayText = bareArrayText" "hd bareArrayText \<noteq> 0x60"
proof -
  show "trim bareArrayText = bareArrayText"
    by (rule trim_id) (simp_all add: bareArrayText_def js_def isWhiteSpace_def)
  show "hd bareArrayText \<noteq> 0x60"
    by (simp add: bareArrayText_def js_def)
qed

section \<open>Suggestions\<close>

lemma settled_no_text:
  "response_text response = None \<or> response_text response = Some [] \<Longrightarrow>
   fetchAndSetInitialSuggestions_settled now (Inr response) st = finishSuggestions [] st"
  by (auto simp: fetchAndSetInitialSuggestions_settled_def)

lemma settled_text:
  "response_text response = Some t \<Longrightarrow> t \<noteq> [] \<Longrightarrow>
   fetchAndSetInitialSuggestions_settled now (Inr response) st
     = (case parseSuggestions t of
          Suggestions suggestionsArray \<Rightarrow> finishSuggestions suggestionsArray st
        | FormatMismatch \<Rightarrow>
            finishSuggestions []
              (appendMessages
                 [systemMessage (js ''sys-err-suggestion-fmt-'') txt_suggestion_format now] st)
        | ParseFailure \<Rightarrow>
            finishSuggestions []
              (appendMessages
                 [systemMessage (js ''sys-err-suggestion-parse-'') txt_suggestion_parse now] st))"
  by (simp add: fetchAndSetInitialSuggestions_settled_def)

lemma parseSuggestions_cases:
  "JSON_parse (unfence t) = None \<Longrightarrow> parseSuggestions t = ParseFailure"
  "JSON_parse (unfence t) = Some parsed \<Longrightarrow> suggestionsProperty parsed = Some (JArray vs) \<Longrightarrow>
   parseSuggestions t = Suggestions (strings vs)"
  "JSON_parse (unfence t) = Some parsed \<Longrightarrow> \<forall>vs. suggestionsProperty parsed \<noteq> Some (JArray vs) \<Longrightarrow>
   parseSuggestions t = FormatMismatch"
  by (auto simp: parseSuggestions_def split: option.splits json.splits)

lemma settled_length:
  "length (initialQuerySuggestions (fetchAndSetInitialSuggestions_settled now (Inr response) st)) \<le> 4"
proof (cases "response_text response = None \<or> response_text response = Some []")
  case True
  then show ?thesis by (simp add: settled_no_text)
next
  case False
  then obtain t where "response_text response = Some t" "t \<noteq> []" by auto
  then show ?thesis
    by (simp add: settled_text split: parsed_suggestions.split)
qed

text \<open>\<open>strings\<close> keeps the elements that are strings, in their order.\<close>

lemma strings_filter: "strings vs = [s. JString s \<leftarrow> vs]"
  by (induction vs rule: strings.induct) simp_all

lemma textResponse_sel [simp]: "response_text (textResponse t) = Some t"
  by (simp add: textResponse_def)

lemma example_texts_not_Nil:
  "fencedText \<noteq> []" "mixedText \<noteq> []" "fiveText \<noteq> []" "bareArrayText \<noteq> []"
  "brokenText \<noteq> []"
  by (simp_all add: fencedText_def mixedText_def fiveText_def bareArrayText_def brokenText_def)

lemma fenced_unfence: "unfence fencedText = js ''{\"suggestions\":[\"a\",\"b\"]}''"
  by code_simp

lemma example_parses:
  "JSON_parse (js ''{\"suggestions\":[\"a\",\"b\"]}'')
     = Some (JObject [(js ''suggestions'', JArray [JString (js ''a''), JString (js ''b'')])])"
  "JSON_parse (unfence mixedText)
     = Some (JObject [(js ''suggestions'', JArray [JString (js ''a''), JNumber (js ''1'')])])"
  "JSON_parse (unfence fiveText)
     = Some (JObject [(js ''suggestions'',
          JArray [JString (js ''a''), JString (js ''b''), JString (js ''c''), JString (js ''d''),
                  JString (js ''e'')])])"
  "JSON_parse (unfence bareArrayText) = Some (JArray [JString (js ''a''), JString (js ''b'')])"
  "JSON_parse (unfence brokenText) = None"
  "JSON_parse bareArrayText = Some (JArray [JString (js ''a''), JString (js ''b'')])"
  by code_simp+

lemma example_properties:
  "suggestionsProperty (JObject [(js ''suggestions'', v)]) = Some v"
  "suggestionsProperty (JArray vs) = None"
  by (simp_all add: suggestionsProperty_def)

lemma fenced_parse: "parseSuggestions fencedText = Suggestions [js ''a'', js ''b'']"
proof -
  have "JSON_parse (unfence fencedText)
     = Some (JObject [(js ''suggestions'', JArray [JString (js ''a''), JString (js ''b'')])])"
    by (simp only: fenced_unfence example_parses(1))
  from parseSuggestions_cases(2) [OF this example_properties(1)]
  show ?thesis by simp
qed

text \<open>
  Claim C5 says that a decoded value that is not an array of strings gives an empty
  list and a system message. The source tests only that \<open>suggestions\<close> is an array
  and keeps its strings: for the response \<open>{"suggestions":["a",1]}\<close> the list is
  \<open>["a"]\<close> and no message is appended.
\<close>

theorem suggestions_mixed_array_counterexample:
  "JSON_parse (unfence mixedText)
     = Some (JObject [(js ''suggestions'', JArray [JString (js ''a''), JNumber (js ''1'')])])
   \<and> initialQuerySuggestions
        (fetchAndSetInitialSuggestions_settled 0 (Inr (textResponse mixedText)) initialState)
       = [js ''a'']
   \<and> initialQuerySuggestions
        (fetchAndSetInitialSuggestions_settled 0 (Inr (textResponse mixedText)) initialState)
       \<noteq> []
   \<and> chatMessages
        (fetchAndSetInitialSuggestions_settled 0 (Inr (textResponse mixedText)) initialState)
       = chatMessages initialState"
proof -
  have "parseSuggestions mixedText = Suggestions [js ''a'']"
    using parseSuggestions_cases(2) [OF example_parses(2) example_properties(1)] by simp
  then have "fetchAndSetInitialSuggestions_settled 0 (Inr (textResponse mixedText)) initialState
        = finishSuggestions [js ''a''] initialState"
    by (simp add: settled_text [of _ mixedText] example_texts_not_Nil)
  then show ?thesis
    by (simp add: example_parses)
qed

text \<open>
  Claim C5, amended. The text of a suggestion response is trimmed. If what is left is
  a code fence (three backticks, a tag of word characters, white space, a body that
  neither starts nor ends with white space, white space, three backticks), the body
  is decoded; if it does not start with a backtick, it is decoded as it is. So the
  fenced text of the scenario decodes to the suggestions \<open>a\<close>, \<open>b\<close>. If decoding fails,
  the list is empty and the system message on the parse error is appended. If the
  decoded value has no property \<open>suggestions\<close> that is an array, the list is empty and
  the system message on the format is appended. If \<open>suggestions\<close> is an array, the list
  is its first four strings in order, elements that are not strings are dropped, and
  no message is appended. The list never has more than four items.
\<close>

theorem suggestions_decoding:
  "(trim t = js ''```'' @ tag @ sp @ body @ sp' @ js ''```''
      \<and> list_all isWordChar tag \<and> sp \<noteq> [] \<and> list_all isWhiteSpace sp
      \<and> body \<noteq> [] \<and> \<not> isWhiteSpace (hd body) \<and> \<not> isWhiteSpace (last body)
      \<and> list_all isWhiteSpace sp' \<longrightarrow>
      unfence t = body)
   \<and> (trim t = [] \<or> hd (trim t) \<noteq> 0x60 \<longrightarrow> unfence t = trim t)
   \<and> (response_text response = Some t \<and> t \<noteq> [] \<and> JSON_parse (unfence t) = None \<longrightarrow>
      initialQuerySuggestions (fetchAndSetInitialSuggestions_settled now (Inr response) st) = []
      \<and> chatMessages (fetchAndSetInitialSuggestions_settled now (Inr response) st)
          = chatMessages st
            @ [systemMessage (js ''sys-err-suggestion-parse-'') txt_suggestion_parse now])
   \<and> (response_text response = Some t \<and> t \<noteq> [] \<and> JSON_parse (unfence t) = Some parsed
        \<and> (\<forall>vs. suggestionsProperty parsed \<noteq> Some (JArray vs)) \<longrightarrow>
      initialQuerySuggestions (fetchAndSetInitialSuggestions_settled now (Inr response) st) = []
      \<and> chatMessages (fetchAndSetInitialSuggestions_settled now (Inr response) st)
          = chatMessages st
            @ [systemMessage (js ''sys-err-suggestion-fmt-'') txt_suggestion_format now])
   \<and> (response_text response = Some t \<and> t \<noteq> [] \<and> JSON_parse (unfence t) = Some parsed
        \<and> suggestionsProperty parsed = Some (JArray vs) \<longrightarrow>
      initialQuerySuggestions (fetchAndSetInitialSuggestions_settled now (Inr response) st)
        = take 4 [s. JString s \<leftarrow> vs]
      \<and> chatMessages (fetchAndSetInitialSuggestions_settled now (Inr response) st)
          = chatMessages st)
   \<and> length (initialQuerySuggestions
               (fetchAndSetInitialSuggestions_settled now (Inr response) st)) \<le> 4
   \<and> unfence fencedText = js ''{\"suggestions\":[\"a\",\"b\"]}''
   \<and> initialQuerySuggestions
        (fetchAndSetInitialSuggestions_settled now (Inr (textResponse fencedText)) st)
       = [js ''a'', js ''b'']"
proof (intro conjI impI)
  assume "trim t = js ''```'' @ tag @ sp @ body @ sp' @ js ''```''
      \<and> list_all isWordChar tag \<and> sp \<noteq> [] \<and> list_all isWhiteSpace sp
      \<and> body \<noteq> [] \<and> \<not> isWhiteSpace (hd body) \<and> \<not> isWhiteSpace (last body)
      \<and> list_all isWhiteSpace sp'"
  then show "unfence t = body"
    by (intro unfence_fenced [of t tag sp body sp']) (simp_all add: fence_literal)
next
  assume "trim t = [] \<or> hd (trim t) \<noteq> 0x60"
  then show "unfence t = trim t"
    by (rule unfence_plain)
next
  assume a: "response_text response = Some t \<and> t \<noteq> [] \<and> JSON_parse (unfence t) = None"
  then have s: "fetchAndSetInitialSuggestions_settled now (Inr response) st
        = finishSuggestions []
              (appendMessages
                 [systemMessage (js ''sys-err-suggestion-parse-'') txt_suggestion_parse now] st)"
    by (simp add: settled_text parseSuggestions_cases)
  show "initialQuerySuggestions (fetchAndSetInitialSuggestions_settled now (Inr response) st) = []"
    unfolding s by simp
  show "chatMessages (fetchAndSetInitialSuggestions_settled now (Inr response) st)
          = chatMessages st
            @ [systemMessage (js ''sys-err-suggestion-parse-'') txt_suggestion_parse now]"
    unfolding s by simp
next
  assume a: "response_text response = Some t \<and> t \<noteq> [] \<and> JSON_parse (unfence t) = Some parsed
        \<and> (\<forall>vs. suggestionsProperty parsed \<noteq> Some (JArray vs))"
  then have "parseSuggestions t = FormatMismatch"
    using parseSuggestions_cases(3) by blast
  with a have s: "fetchAndSetInitialSuggestions_settled now (Inr response) st
        = finishSuggestions []
              (appendMessages
                 [systemMessage (js ''sys-err-suggestion-fmt-'') txt_suggestion_format now] st)"
    by (simp add: settled_text)
  show "initialQuerySuggestions (fetchAndSetInitialSuggestions_settled now (Inr response) st) = []"
    unfolding s by simp
  show "chatMessages (fetchAndSetInitialSuggestions_settled now (Inr response) st)
          = chatMessages st
            @ [systemMessage (js ''sys-err-suggestion-fmt-'') txt_suggestion_format now]"
    unfolding s by simp
next
  assume a: "response_text response = Some t \<and> t \<noteq> [] \<and> JSON_parse (unfence t) = Some parsed
        \<and> suggestionsProperty parsed = Some (JArray vs)"
  then have "parseSuggestions t = Suggestions (strings vs)"
    using parseSuggestions_cases(2) by blast
  with a have s: "fetchAndSetInitialSuggestions_settled now (Inr response) st
        = finishSuggestions (strings vs) st"
    by (simp add: settled_text)
  show "initialQuerySuggestions (fetchAndSetInitialSuggestions_settled now (Inr response) st)
        = take 4 [s. JString s \<leftarrow> vs]"
    unfolding s by (simp add: strings_filter)
  show "chatMessages (fetchAndSetInitialSuggestions_settled now (Inr response) st)
          = chatMessages st"
    unfolding s by simp
next
  show "length (initialQuerySuggestions
               (fetchAndSetInitialSuggestions_settled now (Inr response) st)) \<le> 4"
    by (rule settled_length)
  show "unfence fencedText = js ''{\"suggestions\":[\"a\",\"b\"]}''"
    by (rule fenced_unfence)
  have "fetchAndSetInitialSuggestions_settled now (Inr (textResponse fencedText)) st
          = finishSuggestions [js ''a'', js ''b''] st"
    by (simp add: settled_text [of _ fencedText] example_texts_not_Nil fenced_parse)
  then show "initialQuerySuggestions
        (fetchAndSetInitialSuggestions_settled now (Inr (textResponse fencedText)) st)
       = [js ''a'', js ''b'']"
    by simp
qed

text \<open>
  The fenced text of the scenario is its body; a text cut short fails to decode; a
  bare array is decoded as it is and has no property \<open>suggestions\<close>; of five
  suggestions the first four are kept.
\<close>

theorem suggestions_decoding_witness:
  "trim fencedText
     = js ''```'' @ js ''json'' @ [0x0A] @ js ''{\"suggestions\":[\"a\",\"b\"]}'' @ [0x0A] @ js ''```''
   \<and> list_all isWordChar (js ''json'') \<and> list_all isWhiteSpace [0x0A]
   \<and> \<not> isWhiteSpace (hd (js ''{\"suggestions\":[\"a\",\"b\"]}''))
   \<and> \<not> isWhiteSpace (last (js ''{\"suggestions\":[\"a\",\"b\"]}''))
   \<and> unfence fencedText = js ''{\"suggestions\":[\"a\",\"b\"]}''
   \<and> hd (trim bareArrayText) \<noteq> 0x60 \<and> unfence bareArrayText = bareArrayText
   \<and> response_text (textResponse brokenText) = Some brokenText \<and> brokenText \<noteq> []
   \<and> JSON_parse (unfence brokenText) = None
   \<and> initialQuerySuggestions
        (fetchAndSetInitialSuggestions_settled 0 (Inr (textResponse brokenText)) initialState) = []
   \<and> chatMessages
        (fetchAndSetInitialSuggestions_settled 0 (Inr (textResponse brokenText)) initialState)
       = [systemMessage (js ''sys-err-suggestion-parse-'') txt_suggestion_parse 0]
   \<and> response_text (textResponse bareArrayText) = Some bareArrayText \<and> bareArrayText \<noteq> []
   \<and> JSON_parse (unfence bareArrayText) = Some (JArray [JString (js ''a''), JString (js ''b'')])
   \<and> initialQuerySuggestions
        (fetchAndSetInitialSuggestions_settled 0 (Inr (textResponse bareArrayText)) initialState) = []
   \<and> chatMessages
        (fetchAndSetInitialSuggestions_settled 0 (Inr (textResponse bareArrayText)) initialState)
       = [systemMessage (js ''sys-err-suggestion-fmt-'') txt_suggestion_format 0]
   \<and> response_text (textResponse fiveText) = Some fiveText \<and> fiveText \<noteq> []
   \<and> initialQuerySuggestions
        (fetchAndSetInitialSuggestions_settled 0 (Inr (textResponse fiveText)) initialState)
       = [js ''a'', js ''b'', js ''c'', js ''d'']
   \<and> chatMessages
        (fetchAndSetInitialSuggestions_settled 0 (Inr (textResponse fiveText)) initialState) = []"
  using
    suggestions_decoding
      [where t = fencedText and tag = "js ''json''" and sp = "[0x0A]"
         and body = "js ''{\"suggestions\":[\"a\",\"b\"]}''" and sp' = "[0x0A]"]
    suggestions_decoding
      [where response = "textResponse brokenText" and t = brokenText and now = 0
         and st = initialState]
    suggestions_decoding
      [where response = "textResponse bareArrayText" and t = bareArrayText and now = 0
         and st = initialState
         and parsed = "JArray [JString (js ''a''), JString (js ''b'')]"]
    suggestions_decoding
      [where response = "textResponse fiveText" and t = fiveText and now = 0
         and st = initialState
         and parsed = "JObject [(js ''suggestions'',
            JArray [JString (js ''a''), JString (js ''b''), JString (js ''c''), JString (js ''d''),
                    JString (js ''e'')])]"
         and vs = "[JString (js ''a''), JString (js ''b''), JString (js ''c''), JString (js ''d''),
           JString (js ''e'')]"]
  by (simp add: example_texts_not_Nil example_parses example_properties initialState_def
        example_fence example_plain newline_space)

end
